theory Spec2Isabelle
  imports
    Main
    "HOL-Library.Char_ord"
    "HOL-Library.List_Lexorder"
    "HOL-Library.Sublist"
    "HOL-Library.Multiset"
begin

section \<open>Values of the host language\<close>

text \<open>
  A Python \<open>str\<close> is represented by its UTF-8 encoding and a \<open>bytes\<close> object by its
  bytes, so both are \<open>char list\<close> (an Isabelle \<open>char\<close> is one byte).  SQLite compares
  \<open>TEXT\<close> values under its default \<open>BINARY\<close> collation byte by byte, a proper prefix
  being smaller; this is the lexicographic order of \<open>HOL-Library.List_Lexorder\<close> over
  the byte order of \<open>HOL-Library.Char_ord\<close>.
\<close>

type_synonym str = string
type_synonym bytes = string

text \<open>The exceptions that the modelled code paths can raise.\<close>

datatype error =
    ValueError
  | OverflowError
  | InvalidToken
  | UnicodeDecodeError
  | TypeError
  | JSONDecodeError

section \<open>The \<open>datetime\<close> operations used by \<open>models.py\<close>\<close>

record datetime =
  year :: int
  month :: int
  day :: int
  hour :: int
  minute :: int
  second :: int
  microsecond :: int

definition is_leap :: "int \<Rightarrow> bool" where
  "is_leap y = (y mod 4 = 0 \<and> (y mod 100 \<noteq> 0 \<or> y mod 400 = 0))"

definition days_in_month :: "int \<Rightarrow> int \<Rightarrow> int" where
  "days_in_month y m =
     (if m = 2 then (if is_leap y then 29 else 28)
      else if m = 4 \<or> m = 6 \<or> m = 9 \<or> m = 11 then 30
      else 31)"

text \<open>
  The range checks that the \<open>datetime\<close> constructor performs; \<open>MINYEAR = 1\<close> and
  \<open>MAXYEAR = 9999\<close>.
\<close>

definition valid_datetime :: "datetime \<Rightarrow> bool" where
  "valid_datetime d =
     (1 \<le> year d \<and> year d \<le> 9999 \<and> 1 \<le> month d \<and> month d \<le> 12
      \<and> 1 \<le> day d \<and> day d \<le> days_in_month (year d) (month d)
      \<and> 0 \<le> hour d \<and> hour d \<le> 23 \<and> 0 \<le> minute d \<and> minute d \<le> 59
      \<and> 0 \<le> second d \<and> second d \<le> 59
      \<and> 0 \<le> microsecond d \<and> microsecond d \<le> 999999)"

definition check_datetime :: "datetime \<Rightarrow> error + datetime" where
  "check_datetime d = (if valid_datetime d then Inr d else Inl ValueError)"

text \<open>\<open>datetime.datetime(year, month, day)\<close>: the time of day defaults to midnight.\<close>

definition datetime_of_date :: "int \<Rightarrow> int \<Rightarrow> int \<Rightarrow> error + datetime" where
  "datetime_of_date y m d =
     check_datetime \<lparr>year = y, month = m, day = d, hour = 0, minute = 0, second = 0,
       microsecond = 0\<rparr>"

text \<open>\<open>dt.replace(day=28)\<close>.\<close>

definition replace_day :: "int \<Rightarrow> datetime \<Rightarrow> error + datetime" where
  "replace_day n d = check_datetime (d\<lparr>day := n\<rparr>)"

text \<open>\<open>dt.replace(day=1, hour=0, minute=0, second=0, microsecond=0)\<close>.\<close>

definition replace_first_instant :: "datetime \<Rightarrow> error + datetime" where
  "replace_first_instant d =
     check_datetime (d\<lparr>day := 1, hour := 0, minute := 0, second := 0, microsecond := 0\<rparr>)"

text \<open>
  \<open>dt + timedelta(days=n)\<close> moves \<open>n\<close> days forward in the proleptic Gregorian
  calendar and raises \<open>OverflowError\<close> when the result lies after 9999-12-31.  The
  library computes this through day ordinals; the model steps one day at a time.
\<close>

definition next_day :: "datetime \<Rightarrow> error + datetime" where
  "next_day d =
     (if day d < days_in_month (year d) (month d) then Inr (d\<lparr>day := day d + 1\<rparr>)
      else if month d < 12 then Inr (d\<lparr>month := month d + 1, day := 1\<rparr>)
      else if year d < 9999 then Inr (d\<lparr>year := year d + 1, month := 1, day := 1\<rparr>)
      else Inl OverflowError)"

fun plus_days :: "nat \<Rightarrow> datetime \<Rightarrow> error + datetime" where
  "plus_days 0 d = Inr d"
| "plus_days (Suc n) d =
     (case next_day d of Inl e \<Rightarrow> Inl e | Inr d' \<Rightarrow> plus_days n d')"

text \<open>
  \<open>dt - timedelta(microseconds=1)\<close>: one microsecond back, borrowing from the larger
  fields; \<open>OverflowError\<close> before 0001-01-01.
\<close>

definition prev_day :: "datetime \<Rightarrow> error + datetime" where
  "prev_day d =
     (if 1 < day d then Inr (d\<lparr>day := day d - 1\<rparr>)
      else if 1 < month d then
        Inr (d\<lparr>month := month d - 1, day := days_in_month (year d) (month d - 1)\<rparr>)
      else if 1 < year d then Inr (d\<lparr>year := year d - 1, month := 12, day := 31\<rparr>)
      else Inl OverflowError)"

definition minus_microsecond :: "datetime \<Rightarrow> error + datetime" where
  "minus_microsecond d =
     (if 0 < microsecond d then Inr (d\<lparr>microsecond := microsecond d - 1\<rparr>)
      else if 0 < second d then Inr (d\<lparr>second := second d - 1, microsecond := 999999\<rparr>)
      else if 0 < minute d then
        Inr (d\<lparr>minute := minute d - 1, second := 59, microsecond := 999999\<rparr>)
      else if 0 < hour d then
        Inr (d\<lparr>hour := hour d - 1, minute := 59, second := 59, microsecond := 999999\<rparr>)
      else (case prev_day d of
              Inl e \<Rightarrow> Inl e
            | Inr d' \<Rightarrow>
                Inr (d'\<lparr>hour := 23, minute := 59, second := 59, microsecond := 999999\<rparr>)))"

text \<open>
  Decimal rendering with leading zeros (\<open>%04d\<close>, \<open>%02d\<close>, \<open>%06d\<close>), for
  non-negative numbers that fit the width.
\<close>

definition digit_char :: "nat \<Rightarrow> char" where
  "digit_char n = ''0123456789'' ! (n mod 10)"

fun zero_pad :: "nat \<Rightarrow> nat \<Rightarrow> string" where
  "zero_pad 0 n = []"
| "zero_pad (Suc w) n = zero_pad w (n div 10) @ [digit_char n]"

text \<open>
  \<open>dt.isoformat()\<close>: \<open>YYYY-MM-DDTHH:MM:SS\<close>, followed by \<open>.ffffff\<close> only when the
  microsecond field is not zero.
\<close>

definition isoformat :: "datetime \<Rightarrow> str" where
  "isoformat d =
     zero_pad 4 (nat (year d)) @ ''-'' @ zero_pad 2 (nat (month d)) @ ''-''
     @ zero_pad 2 (nat (day d)) @ ''T'' @ zero_pad 2 (nat (hour d)) @ '':''
     @ zero_pad 2 (nat (minute d)) @ '':'' @ zero_pad 2 (nat (second d))
     @ (if microsecond d \<noteq> 0 then ''.'' @ zero_pad 6 (nat (microsecond d)) else [])"

text \<open>
  The bounds of the query in \<open>condense_journal_entries\<close> (lines 272 to 277): the
  ISO strings of the first instant of the month and of the last one.
\<close>

definition month_bounds :: "int \<Rightarrow> int \<Rightarrow> error + (datetime \<times> str \<times> str)" where
  "month_bounds month' year' =
     (case datetime_of_date year' month' 1 of
        Inl e \<Rightarrow> Inl e
      | Inr target_month \<Rightarrow>
          (case replace_day 28 target_month of
             Inl e \<Rightarrow> Inl e
           | Inr d28 \<Rightarrow>
               (case plus_days 4 d28 of
                  Inl e \<Rightarrow> Inl e
                | Inr d32 \<Rightarrow>
                    (case replace_first_instant d32 of
                       Inl e \<Rightarrow> Inl e
                     | Inr next_month \<Rightarrow>
                         (case minus_microsecond next_month of
                            Inl e \<Rightarrow> Inl e
                          | Inr end_date \<Rightarrow>
                              Inr (target_month, isoformat target_month,
                                   isoformat end_date))))))"

text \<open>
  \<open>dt.strftime('%B %Y')\<close>: the English month name and the year.  The year is shown
  with four digits; C libraries that print years below 1000 unpadded differ there, and no
  statement below depends on it.
\<close>

definition month_name :: "int \<Rightarrow> str" where
  "month_name m =
     (if m = 1 then ''January'' else if m = 2 then ''February''
      else if m = 3 then ''March'' else if m = 4 then ''April''
      else if m = 5 then ''May'' else if m = 6 then ''June''
      else if m = 7 then ''July'' else if m = 8 then ''August''
      else if m = 9 then ''September'' else if m = 10 then ''October''
      else if m = 11 then ''November'' else ''December'')"

definition strftime_B_Y :: "datetime \<Rightarrow> str" where
  "strftime_B_Y d = month_name (month d) @ '' '' @ zero_pad 4 (nat (year d))"

section \<open>Text encoding\<close>

text \<open>
  \<open>bytes.decode()\<close> accepts exactly the well-formed UTF-8 byte sequences (no overlong
  forms, no surrogates, nothing above U+10FFFF) and raises \<open>UnicodeDecodeError\<close> on
  the others.  The check is the usual automaton over the bytes.  \<open>str.encode()\<close> is the
  identity on the representation.
\<close>

datatype utf8_state = U0 | U1 | U2 | U3 | UE0 | UED | UF0 | UF4 | UBad

definition in_range :: "nat \<Rightarrow> nat \<Rightarrow> char \<Rightarrow> bool" where
  "in_range lo hi c = (lo \<le> of_char c \<and> (of_char c :: nat) \<le> hi)"

fun utf8_step :: "utf8_state \<Rightarrow> char \<Rightarrow> utf8_state" where
  "utf8_step U0 c =
     (if in_range 0x00 0x7F c then U0
      else if in_range 0xC2 0xDF c then U1
      else if in_range 0xE0 0xE0 c then UE0
      else if in_range 0xE1 0xEC c then U2
      else if in_range 0xED 0xED c then UED
      else if in_range 0xEE 0xEF c then U2
      else if in_range 0xF0 0xF0 c then UF0
      else if in_range 0xF1 0xF3 c then U3
      else if in_range 0xF4 0xF4 c then UF4
      else UBad)"
| "utf8_step U1 c = (if in_range 0x80 0xBF c then U0 else UBad)"
| "utf8_step U2 c = (if in_range 0x80 0xBF c then U1 else UBad)"
| "utf8_step U3 c = (if in_range 0x80 0xBF c then U2 else UBad)"
| "utf8_step UE0 c = (if in_range 0xA0 0xBF c then U1 else UBad)"
| "utf8_step UED c = (if in_range 0x80 0x9F c then U1 else UBad)"
| "utf8_step UF0 c = (if in_range 0x90 0xBF c then U2 else UBad)"
| "utf8_step UF4 c = (if in_range 0x80 0x8F c then U2 else UBad)"
| "utf8_step UBad c = UBad"

definition utf8_valid :: "bytes \<Rightarrow> bool" where
  "utf8_valid bs = (foldl utf8_step U0 bs = U0)"

definition encode :: "str \<Rightarrow> bytes" where
  "encode s = s"

definition decode :: "bytes \<Rightarrow> error + str" where
  "decode bs = (if utf8_valid bs then Inr bs else Inl UnicodeDecodeError)"

section \<open>The environment of a call\<close>

text \<open>
  What a call reads from outside the program: the wall clock (\<open>datetime.now()\<close>,
  \<open>time.time()\<close>) and the random bytes that \<open>Fernet.encrypt\<close> draws for its
  initialisation vector.
\<close>

record environ =
  now :: datetime
  unix_time :: nat
  urandom :: bytes

text \<open>
  The \<open>Fernet\<close> object held in \<open>self.fernet\<close>: \<open>encrypt\<close> maps bytes to a token,
  \<open>decrypt\<close> maps a token to bytes or raises \<open>InvalidToken\<close>.
\<close>

record cipher =
  fernet_encrypt :: "environ \<Rightarrow> bytes \<Rightarrow> bytes"
  fernet_decrypt :: "bytes \<Rightarrow> error + bytes"

section \<open>The SQLite store\<close>

text \<open>
  The four tables of \<open>_initialize_db\<close>.  A table is the list of its rows in rowid
  order.  An \<open>AUTOINCREMENT\<close> table also has its entry in \<open>sqlite_sequence\<close>,
  the largest rowid it ever held.
\<close>

record journal_row =
  row_id :: int
  row_date :: str
  row_entry :: str
  row_is_condensed :: int

record session_row =
  session_id :: int
  session_date :: str
  session_approach :: str
  session_data :: str

record note_row =
  note_id :: int
  note_date :: str
  note_notes :: str

record tables =
  user_profile :: "(int \<times> str) list"
  journal_entries :: "journal_row list"
  journal_entries_seq :: int
  therapy_sessions :: "session_row list"
  therapy_sessions_seq :: int
  therapist_notes :: "note_row list"
  therapist_notes_seq :: int

definition empty_tables :: tables where
  "empty_tables =
     \<lparr>user_profile = [], journal_entries = [], journal_entries_seq = 0,
      therapy_sessions = [], therapy_sessions_seq = 0,
      therapist_notes = [], therapist_notes_seq = 0\<rparr>"

text \<open>
  The \<open>Database\<close> object.  The \<open>sqlite3\<close> module opens a transaction implicitly
  before the first \<open>INSERT\<close>, \<open>UPDATE\<close> or \<open>DELETE\<close> and keeps it open until
  \<open>commit()\<close>.  \<open>connection\<close> is what statements on this handle see (the committed
  data with the changes of the open transaction applied), \<open>committed\<close> is what the
  database file holds, which is all that another handle, or this file reopened after the
  handle is closed, can see.
\<close>

record Database =
  db_path :: str
  key :: bytes
  fernet :: cipher
  connection :: tables
  committed :: tables

datatype statement =
    InsertJournal str str int
  | DeleteJournal int
  | InsertProfile str
  | UpdateProfile str
  | Commit

definition next_rowid :: "journal_row list \<Rightarrow> int \<Rightarrow> int" where
  "next_rowid rows seq = max seq (foldr max (map row_id rows) 0) + 1"

text \<open>
  \<open>cursor.execute\<close> of the data-changing statements and \<open>connection.commit()\<close>.
  \<open>InsertJournal d e c\<close> is
  \<open>INSERT INTO journal_entries (date, entry, is_condensed) VALUES (d, e, c)\<close>,
  \<open>DeleteJournal i\<close> is \<open>DELETE FROM journal_entries WHERE id = i\<close>,
  \<open>InsertProfile p\<close> is \<open>INSERT INTO user_profile (id, profile_data) VALUES (1, p)\<close>
  and \<open>UpdateProfile p\<close> is \<open>UPDATE user_profile SET profile_data = p WHERE id = 1\<close>.
\<close>

fun apply_statement :: "statement \<Rightarrow> tables \<Rightarrow> tables" where
  "apply_statement (InsertJournal d e c) t =
     (let i = next_rowid (journal_entries t) (journal_entries_seq t)
      in t\<lparr>journal_entries :=
              journal_entries t
              @ [\<lparr>row_id = i, row_date = d, row_entry = e, row_is_condensed = c\<rparr>],
            journal_entries_seq := i\<rparr>)"
| "apply_statement (DeleteJournal i) t =
     t\<lparr>journal_entries := filter (\<lambda>r. row_id r \<noteq> i) (journal_entries t)\<rparr>"
| "apply_statement (InsertProfile p) t = t\<lparr>user_profile := user_profile t @ [(1, p)]\<rparr>"
| "apply_statement (UpdateProfile p) t =
     t\<lparr>user_profile := map (\<lambda>(i, x). if i = 1 then (i, p) else (i, x)) (user_profile t)\<rparr>"
| "apply_statement Commit t = t"

fun execute :: "Database \<Rightarrow> statement \<Rightarrow> Database" where
  "execute db Commit = db\<lparr>committed := connection db\<rparr>"
| "execute db s = db\<lparr>connection := apply_statement s (connection db)\<rparr>"

definition run :: "Database \<Rightarrow> statement list \<Rightarrow> Database" where
  "run db ss = foldl execute db ss"

section \<open>Encryption at the facade\<close>

text \<open>Lines 95 to 101.\<close>

definition encrypt :: "Database \<Rightarrow> environ \<Rightarrow> str \<Rightarrow> error + str" where
  "encrypt db env data = decode (fernet_encrypt (fernet db) env (encode data))"

definition decrypt :: "Database \<Rightarrow> str \<Rightarrow> error + str" where
  "decrypt db encrypted_data =
     (case fernet_decrypt (fernet db) (encode encrypted_data) of
        Inl e \<Rightarrow> Inl e
      | Inr plain \<Rightarrow> decode plain)"

section \<open>The user profile\<close>

text \<open>
  The profile is a dictionary with string keys; the type of its values is left open.  The
  \<open>json\<close> module is the standard library's: \<open>dumps\<close> renders a dictionary as
  text or raises \<open>TypeError\<close>, \<open>loads\<close> parses text or raises
  \<open>JSONDecodeError\<close>.  It is a parameter of the two functions that call it.
\<close>

record 'a json_module =
  json_dumps :: "(str \<times> 'a) list \<Rightarrow> error + str"
  json_loads :: "str \<Rightarrow> error + (str \<times> 'a) list"

text \<open>
  Lines 103 to 119.  \<open>SELECT COUNT(*)\<close> counts all rows of the table; the
  \<open>INSERT\<close> and the \<open>UPDATE\<close> both address the row with id 1.
\<close>

definition save_user_profile ::
  "'a json_module \<Rightarrow> environ \<Rightarrow> (str \<times> 'a) list \<Rightarrow> Database \<Rightarrow> error + Database" where
  "save_user_profile json env profile_data db =
     (case json_dumps json profile_data of
        Inl e \<Rightarrow> Inl e
      | Inr json_data \<Rightarrow>
          (case encrypt db env json_data of
             Inl e \<Rightarrow> Inl e
           | Inr encrypted_data \<Rightarrow>
               (let count = length (user_profile (connection db))
                in if count = 0 then Inr (run db [InsertProfile encrypted_data, Commit])
                   else Inr (run db [UpdateProfile encrypted_data, Commit]))))"

text \<open>Lines 121 to 131.  Without a row of id 1 the result is the empty dictionary.\<close>

definition get_user_profile ::
  "'a json_module \<Rightarrow> Database \<Rightarrow> error + (str \<times> 'a) list" where
  "get_user_profile json db =
     (case find (\<lambda>row. fst row = 1) (user_profile (connection db)) of
        None \<Rightarrow> Inr []
      | Some result \<Rightarrow>
          (case decrypt db (snd result) of
             Inl e \<Rightarrow> Inl e
           | Inr json_data \<Rightarrow> json_loads json json_data))"

section \<open>Journal entries\<close>

text \<open>Lines 133 to 143.  \<open>date\<close> defaults to the current time.\<close>

definition add_journal_entry ::
  "environ \<Rightarrow> str \<Rightarrow> str option \<Rightarrow> Database \<Rightarrow> error + Database" where
  "add_journal_entry env entry date db =
     (let date' = (case date of None \<Rightarrow> isoformat (now env) | Some d \<Rightarrow> d)
      in case encrypt db env entry of
           Inl e \<Rightarrow> Inl e
         | Inr encrypted_entry \<Rightarrow>
             Inr (run db [InsertJournal date' encrypted_entry 0, Commit]))"

text \<open>
  Lines 145 to 176.  An argument counts as given when it is truthy: neither \<open>None\<close>
  nor the empty string.  \<open>ORDER BY date DESC\<close> compares the stored strings; rows
  with equal dates come in an order that SQL leaves open, and the model keeps them in
  table order.
\<close>

definition truthy :: "str option \<Rightarrow> bool" where
  "truthy s = (case s of None \<Rightarrow> False | Some x \<Rightarrow> x \<noteq> [])"

definition where_date :: "str option \<Rightarrow> str option \<Rightarrow> str \<Rightarrow> bool" where
  "where_date start_date end_date d =
     ((case start_date of None \<Rightarrow> True | Some s \<Rightarrow> s = [] \<or> s \<le> d)
      \<and> (case end_date of None \<Rightarrow> True | Some e \<Rightarrow> e = [] \<or> d \<le> e))"

definition order_by_date_desc :: "journal_row list \<Rightarrow> journal_row list" where
  "order_by_date_desc rows = rev (sort_key row_date (rev rows))"

definition select_journal ::
  "str option \<Rightarrow> str option \<Rightarrow> tables \<Rightarrow> journal_row list" where
  "select_journal start_date end_date t =
     order_by_date_desc
       (filter (\<lambda>r. where_date start_date end_date (row_date r)) (journal_entries t))"

text \<open>The dictionaries that \<open>get_journal_entries\<close> returns.\<close>

record journal_dict =
  dict_id :: int
  dict_date :: str
  dict_entry :: str
  dict_is_condensed :: bool

fun decrypt_rows :: "Database \<Rightarrow> journal_row list \<Rightarrow> error + journal_dict list" where
  "decrypt_rows db [] = Inr []"
| "decrypt_rows db (r # rs) =
     (case decrypt db (row_entry r) of
        Inl e \<Rightarrow> Inl e
      | Inr entry_text \<Rightarrow>
          (case decrypt_rows db rs of
             Inl e \<Rightarrow> Inl e
           | Inr entries \<Rightarrow>
               Inr (\<lparr>dict_id = row_id r, dict_date = row_date r, dict_entry = entry_text,
                     dict_is_condensed = (row_is_condensed r \<noteq> 0)\<rparr> # entries)))"

definition get_journal_entries ::
  "Database \<Rightarrow> str option \<Rightarrow> str option \<Rightarrow> error + journal_dict list" where
  "get_journal_entries db start_date end_date =
     decrypt_rows db (select_journal start_date end_date (connection db))"

section \<open>Condensation\<close>

text \<open>
  Lines 269 to 302.  \<open>condense_text\<close> is the summary built in lines 285 to 287,
  \<open>condense_script\<close> the statements of lines 293 to 302 in the order in which they
  are executed.
\<close>

definition condense_text :: "datetime \<Rightarrow> journal_dict list \<Rightarrow> str" where
  "condense_text target_month entries =
     ''Condensed journal entries for '' @ strftime_B_Y target_month @ '':'' @ [CHR 0x0A, CHR 0x0A]
     @ concat (map (\<lambda>entry. ''Date: '' @ dict_date entry @ [CHR 0x0A] @ dict_entry entry
                       @ [CHR 0x0A, CHR 0x0A]) entries)"

definition condense_script :: "str \<Rightarrow> str \<Rightarrow> journal_dict list \<Rightarrow> statement list" where
  "condense_script condensed_date encrypted_condensed entries =
     InsertJournal condensed_date encrypted_condensed 1
     # map (\<lambda>entry. DeleteJournal (dict_id entry)) entries
     @ [Commit]"

text \<open>
  Everything up to line 291: the entries of the month and the statements to run, or
  \<open>None\<close> when the month has no entries and the function returns at line 282.
\<close>

definition condense_plan ::
  "environ \<Rightarrow> int \<Rightarrow> int \<Rightarrow> Database
     \<Rightarrow> error + (journal_dict list \<times> statement list) option" where
  "condense_plan env month' year' db =
     (case month_bounds month' year' of
        Inl e \<Rightarrow> Inl e
      | Inr (target_month, start_date, end_date) \<Rightarrow>
          (case get_journal_entries db (Some start_date) (Some end_date) of
             Inl e \<Rightarrow> Inl e
           | Inr entries \<Rightarrow>
               if entries = [] then Inr None
               else
                 (case encrypt db env (condense_text target_month entries) of
                    Inl e \<Rightarrow> Inl e
                  | Inr encrypted_condensed \<Rightarrow>
                      Inr (Some (entries,
                        condense_script (isoformat target_month) encrypted_condensed
                          entries)))))"

definition condense_journal_entries ::
  "environ \<Rightarrow> int \<Rightarrow> int \<Rightarrow> Database \<Rightarrow> error + Database" where
  "condense_journal_entries env month' year' db =
     (case condense_plan env month' year' db of
        Inl e \<Rightarrow> Inl e
      | Inr None \<Rightarrow> Inr db
      | Inr (Some (entries, script)) \<Rightarrow> Inr (run db script))"

section \<open>Notions used in the statements\<close>

text \<open>
  An environment as the operating system provides it: a valid current time and the
  sixteen random bytes that \<open>os.urandom(16)\<close> returns.
\<close>

definition valid_environ :: "environ \<Rightarrow> bool" where
  "valid_environ env = (valid_datetime (now env) \<and> length (urandom env) = 16)"

text \<open>
  The contract of a \<open>Fernet\<close> object that the store relies on: a token is ASCII
  text, and decrypting a token that this object produced returns the plaintext.
\<close>

definition cipher_ok :: "cipher \<Rightarrow> bool" where
  "cipher_ok c =
     (\<forall>env data. valid_environ env \<longrightarrow>
        utf8_valid (fernet_encrypt c env data)
        \<and> fernet_decrypt c (fernet_encrypt c env data) = Inr data)"

text \<open>A stored row whose ciphertext the handle can decrypt, and the dictionary it yields.\<close>

definition readable :: "Database \<Rightarrow> journal_row \<Rightarrow> bool" where
  "readable db r = (case decrypt db (row_entry r) of Inl e \<Rightarrow> False | Inr s \<Rightarrow> True)"

definition dict_of_row :: "Database \<Rightarrow> journal_row \<Rightarrow> journal_dict" where
  "dict_of_row db r =
     \<lparr>dict_id = row_id r, dict_date = row_date r,
      dict_entry = (case decrypt db (row_entry r) of Inl e \<Rightarrow> [] | Inr s \<Rightarrow> s),
      dict_is_condensed = (row_is_condensed r \<noteq> 0)\<rparr>"

definition date_and_text :: "journal_dict \<Rightarrow> str \<times> str" where
  "date_and_text e = (dict_date e, dict_entry e)"

text \<open>The date under which a call of \<open>add_journal_entry\<close> stores its entry.\<close>

definition call_date :: "environ \<Rightarrow> str option \<Rightarrow> str" where
  "call_date env date = (case date of None \<Rightarrow> isoformat (now env) | Some d \<Rightarrow> d)"

text \<open>A sequence of \<open>add_journal_entry\<close> calls on one handle.\<close>

fun add_journal_entries ::
  "(environ \<times> str \<times> str option) list \<Rightarrow> Database \<Rightarrow> error + Database" where
  "add_journal_entries [] db = Inr db"
| "add_journal_entries ((env, entry, date) # calls) db =
     (case add_journal_entry env entry date db of
        Inl e \<Rightarrow> Inl e
      | Inr db' \<Rightarrow> add_journal_entries calls db')"

text \<open>The row that an \<open>INSERT\<close> into \<open>journal_entries\<close> appends.\<close>

definition inserted_row :: "tables \<Rightarrow> str \<Rightarrow> str \<Rightarrow> int \<Rightarrow> journal_row" where
  "inserted_row t d e c =
     \<lparr>row_id = next_rowid (journal_entries t) (journal_entries_seq t), row_date = d,
      row_entry = e, row_is_condensed = c\<rparr>"

text \<open>A row whose stored date lies between two bounds, as the query compares them.\<close>

definition in_bounds :: "str \<Rightarrow> str \<Rightarrow> journal_row \<Rightarrow> bool" where
  "in_bounds s e r = (s \<le> row_date r \<and> row_date r \<le> e)"

text \<open>
  The order of naive \<open>datetime\<close> objects: Python compares them field by field, from the
  year down to the microsecond.
\<close>

definition datetime_key :: "datetime \<Rightarrow> int list" where
  "datetime_key d = [year d, month d, day d, hour d, minute d, second d, microsecond d]"

text \<open>
  The time that an ISO-8601 timestamp with a UTC offset denotes, layout
  \<open>YYYY-MM-DDTHH:MM:SS+HH:MM\<close>: the seconds of Universal Time counted from the day
  before 0001-01-01, which is the day number of \<open>date.toordinal()\<close> times 86400, plus
  the time of day, minus the offset.  This is the reading of a stored date as a point in
  time; the program itself never parses a stored date.
\<close>

definition decimal_value :: "str \<Rightarrow> int" where
  "decimal_value s = foldl (\<lambda>a c. 10 * a + (of_char c - 48)) 0 s"

definition days_before_year :: "int \<Rightarrow> int" where
  "days_before_year y = 365 * (y - 1) + (y - 1) div 4 - (y - 1) div 100 + (y - 1) div 400"

definition days_before_month :: "int \<Rightarrow> int \<Rightarrow> int" where
  "days_before_month y m =
     [0, 31, 59, 90, 120, 151, 181, 212, 243, 273, 304, 334] ! nat (m - 1)
     + (if 2 < m \<and> is_leap y then 1 else 0)"

definition utc_seconds :: "str \<Rightarrow> int option" where
  "utc_seconds s =
     (if length s = 25 \<and> s ! 4 = CHR ''-'' \<and> s ! 7 = CHR ''-'' \<and> s ! 10 = CHR ''T''
         \<and> s ! 13 = CHR '':'' \<and> s ! 16 = CHR '':'' \<and> s ! 19 \<in> {CHR ''+'', CHR ''-''}
         \<and> s ! 22 = CHR '':''
      then
        let y = decimal_value (take 4 s);
            m = decimal_value (take 2 (drop 5 s));
            d = decimal_value (take 2 (drop 8 s));
            hh = decimal_value (take 2 (drop 11 s));
            mi = decimal_value (take 2 (drop 14 s));
            ss = decimal_value (take 2 (drop 17 s));
            offset = (decimal_value (take 2 (drop 20 s)) * 60
                      + decimal_value (take 2 (drop 23 s))) * 60
        in Some ((((days_before_year y + days_before_month y m + d) * 24 + hh) * 60 + mi) * 60
                 + ss - (if s ! 19 = CHR ''-'' then - offset else offset))
      else None)"

section \<open>Example data\<close>

text \<open>
  A keyless stand-in for the \<open>Fernet\<close> object, used only to run the model on
  examples: a token spells every byte of the plaintext as two letters.
\<close>

definition nibble_pair :: "char \<Rightarrow> bytes" where
  "nibble_pair c =
     [char_of (97 + (of_char c :: nat) div 16), char_of (97 + (of_char c :: nat) mod 16)]"

fun unnibble :: "bytes \<Rightarrow> bytes option" where
  "unnibble [] = Some []"
| "unnibble [x] = None"
| "unnibble (x # y # rest) =
     (if in_range 97 112 x \<and> in_range 97 112 y
      then map_option
             (\<lambda>r. char_of (((of_char x :: nat) - 97) * 16 + ((of_char y :: nat) - 97)) # r)
             (unnibble rest)
      else None)"

definition stand_in_cipher :: cipher where
  "stand_in_cipher =
     \<lparr>fernet_encrypt = (\<lambda>env data. concat (map nibble_pair data)),
      fernet_decrypt = (\<lambda>token. case unnibble token of
                                    None \<Rightarrow> Inl InvalidToken
                                  | Some data \<Rightarrow> Inr data)\<rparr>"

text \<open>
  A stand-in for the \<open>json\<close> module on dictionaries from strings to strings whose
  characters need no escaping: \<open>{"k": "v", ...}\<close>, written as \<open>json.dumps\<close>
  writes it and read back by cutting the text at the quotation marks.
\<close>

fun split_quotes :: "str \<Rightarrow> str \<Rightarrow> str list" where
  "split_quotes acc [] = [rev acc]"
| "split_quotes acc (c # cs) =
     (if c = CHR 0x22 then rev acc # split_quotes [] cs else split_quotes (c # acc) cs)"

fun quoted_pairs :: "str list \<Rightarrow> (str \<times> str) list" where
  "quoted_pairs (a # k # b # v # rest) = (k, v) # quoted_pairs rest"
| "quoted_pairs rest = []"

fun flat_items :: "(str \<times> str) list \<Rightarrow> str" where
  "flat_items [] = []"
| "flat_items [(k, v)] = [CHR 0x22] @ k @ [CHR 0x22] @ '': '' @ [CHR 0x22] @ v @ [CHR 0x22]"
| "flat_items ((k, v) # rest) =
     [CHR 0x22] @ k @ [CHR 0x22] @ '': '' @ [CHR 0x22] @ v @ [CHR 0x22] @ '', ''
     @ flat_items rest"

definition stand_in_json :: "str json_module" where
  "stand_in_json =
     \<lparr>json_dumps = (\<lambda>m. Inr (''{'' @ flat_items m @ ''}'')),
      json_loads = (\<lambda>s. Inr (quoted_pairs (split_quotes [] s)))\<rparr>"

text \<open>
  The \<open>json\<close> module on a fragment of the Python values: strings whose characters
  need no escaping, integers, and lists and tuples of such values, in dictionaries with
  string keys.  \<open>json.dumps\<close> writes a tuple as it writes a list, as a JSON array,
  and \<open>json.loads\<close> reads every array as a list.  The reader accepts the layout
  that \<open>json.dumps\<close> writes.
\<close>

datatype pyvalue = PyStr str | PyInt int | PyList "pyvalue list" | PyTuple "pyvalue list"

fun join :: "str \<Rightarrow> str list \<Rightarrow> str" where
  "join sep [] = []"
| "join sep [x] = x"
| "join sep (x # y # ys) = x @ sep @ join sep (y # ys)"

function decimal :: "nat \<Rightarrow> str" where
  "decimal n = (if n < 10 then [digit_char n] else decimal (n div 10) @ [digit_char n])"
  by pat_completeness auto

termination decimal
  by (relation "measure id") auto

declare decimal.simps [simp del]

definition dumps_int :: "int \<Rightarrow> str" where
  "dumps_int i = (if i < 0 then ''-'' @ decimal (nat (- i)) else decimal (nat i))"

fun dumps_value :: "pyvalue \<Rightarrow> str" where
  "dumps_value (PyStr s) = [CHR 0x22] @ s @ [CHR 0x22]"
| "dumps_value (PyInt i) = dumps_int i"
| "dumps_value (PyList xs) = ''['' @ join '', '' (map dumps_value xs) @ '']''"
| "dumps_value (PyTuple xs) = ''['' @ join '', '' (map dumps_value xs) @ '']''"

definition dumps_dict :: "(str \<times> pyvalue) list \<Rightarrow> str" where
  "dumps_dict m =
     ''{'' @ join '', '' (map (\<lambda>(k, v). [CHR 0x22] @ k @ [CHR 0x22] @ '': '' @ dumps_value v) m)
     @ ''}''"

definition after :: "str \<Rightarrow> str \<Rightarrow> str option" where
  "after p s = (if take (length p) s = p then Some (drop (length p) s) else None)"

fun loads_string :: "str \<Rightarrow> str \<Rightarrow> (str \<times> str) option" where
  "loads_string acc [] = None"
| "loads_string acc (c # cs) =
     (if c = CHR 0x22 then Some (rev acc, cs) else loads_string (c # acc) cs)"

fun loads_digits :: "int \<Rightarrow> str \<Rightarrow> int \<times> str" where
  "loads_digits acc [] = (acc, [])"
| "loads_digits acc (c # cs) =
     (if in_range 48 57 c then loads_digits (10 * acc + (of_char c - 48)) cs else (acc, c # cs))"

fun loads_value :: "nat \<Rightarrow> str \<Rightarrow> (pyvalue \<times> str) option"
  and loads_elements :: "nat \<Rightarrow> str \<Rightarrow> (pyvalue list \<times> str) option" where
  "loads_value 0 s = None"
| "loads_value (Suc fuel) [] = None"
| "loads_value (Suc fuel) (c # cs) =
     (if c = CHR 0x22 then map_option (\<lambda>(s, rest). (PyStr s, rest)) (loads_string [] cs)
      else if c = CHR ''['' then
        (case after '']'' cs of
           Some rest \<Rightarrow> Some (PyList [], rest)
         | None \<Rightarrow> map_option (\<lambda>(xs, rest). (PyList xs, rest)) (loads_elements fuel cs))
      else if c = CHR ''-'' \<and> cs \<noteq> [] \<and> in_range 48 57 (hd cs) then
        (case loads_digits 0 cs of (n, rest) \<Rightarrow> Some (PyInt (- n), rest))
      else if in_range 48 57 c then
        (case loads_digits 0 (c # cs) of (n, rest) \<Rightarrow> Some (PyInt n, rest))
      else None)"
| "loads_elements 0 s = None"
| "loads_elements (Suc fuel) s =
     (case loads_value fuel s of
        None \<Rightarrow> None
      | Some (x, rest) \<Rightarrow>
          (case after '']'' rest of
             Some rest' \<Rightarrow> Some ([x], rest')
           | None \<Rightarrow>
               (case after '', '' rest of
                  None \<Rightarrow> None
                | Some rest' \<Rightarrow>
                    map_option (\<lambda>(xs, r). (x # xs, r)) (loads_elements fuel rest'))))"

fun loads_members :: "nat \<Rightarrow> str \<Rightarrow> (str \<times> pyvalue) list option" where
  "loads_members 0 s = None"
| "loads_members (Suc fuel) s =
     (case after [CHR 0x22] s of
        None \<Rightarrow> None
      | Some s1 \<Rightarrow>
          (case loads_string [] s1 of
             None \<Rightarrow> None
           | Some (k, s2) \<Rightarrow>
               (case after '': '' s2 of
                  None \<Rightarrow> None
                | Some s3 \<Rightarrow>
                    (case loads_value (length s3) s3 of
                       None \<Rightarrow> None
                     | Some (v, s4) \<Rightarrow>
                         if s4 = ''}'' then Some [(k, v)]
                         else
                           (case after '', '' s4 of
                              None \<Rightarrow> None
                            | Some s5 \<Rightarrow>
                                map_option (\<lambda>ms. (k, v) # ms) (loads_members fuel s5))))))"

definition loads_dict :: "str \<Rightarrow> (str \<times> pyvalue) list option" where
  "loads_dict s =
     (if s = ''{}'' then Some []
      else case after ''{'' s of None \<Rightarrow> None | Some s1 \<Rightarrow> loads_members (length s1) s1)"

definition python_json :: "pyvalue json_module" where
  "python_json =
     \<lparr>json_dumps = (\<lambda>m. Inr (dumps_dict m)),
      json_loads = (\<lambda>s. case loads_dict s of None \<Rightarrow> Inl JSONDecodeError | Some m \<Rightarrow> Inr m)\<rparr>"

text \<open>The profile of \<open>test_user_profile\<close>.\<close>

definition test_profile :: "(str \<times> str) list" where
  "test_profile =
     [(''name'', ''Test User''), (''age'', ''30''), (''gender'', ''Non-binary''),
      (''therapy_goal'', ''Reduce anxiety'')]"

definition example_environ :: environ where
  "example_environ =
     \<lparr>now = \<lparr>year = 2024, month = 3, day = 5, hour = 10, minute = 20, second = 30,
              microsecond = 123\<rparr>,
      unix_time = 1709634030,
      urandom = ''0123456789abcdef''\<rparr>"

definition database_with :: "journal_row list \<Rightarrow> Database" where
  "database_with rows =
     (let t = empty_tables\<lparr>journal_entries := rows, journal_entries_seq := int (length rows)\<rparr>
      in \<lparr>db_path = ''data/dr_claude.db'', key = ''stand-in'', fernet = stand_in_cipher,
          connection = t, committed = t\<rparr>)"

definition stored :: "int \<Rightarrow> str \<Rightarrow> str \<Rightarrow> journal_row" where
  "stored i d s =
     \<lparr>row_id = i, row_date = d, row_entry = fernet_encrypt stand_in_cipher example_environ s,
      row_is_condensed = 0\<rparr>"

text \<open>The five entries of \<open>test_condense_journal_entries\<close>, and one of the next month.\<close>

definition may_rows :: "journal_row list" where
  "may_rows =
     [stored 1 ''2023-05-01T00:00:00'' ''Test entry for day 1'',
      stored 2 ''2023-05-02T00:00:00'' ''Test entry for day 2'',
      stored 3 ''2023-05-03T00:00:00'' ''Test entry for day 3'',
      stored 4 ''2023-05-04T00:00:00'' ''Test entry for day 4'',
      stored 5 ''2023-05-05T00:00:00'' ''Test entry for day 5'']"

definition june_row :: journal_row where
  "june_row = stored 6 ''2023-06-01T00:00:00'' ''Test entry for June''"

definition may_2023 :: datetime where
  "may_2023 =
     \<lparr>year = 2023, month = 5, day = 1, hour = 0, minute = 0, second = 0, microsecond = 0\<rparr>"

definition example_calls :: "(environ \<times> str \<times> str option) list" where
  "example_calls =
     [(example_environ, ''I am feeling better today.'', Some ''2024-03-04T09:00:00''),
      (example_environ, ''Today was a difficult day.'', Some ''2024-03-05T08:30:00''),
      (example_environ, ''A good conversation.'', None)]"

text \<open>
  The entries that \<open>condense_journal_entries\<close> fetches for the bounds \<open>s\<close> and
  \<open>e\<close>, and the summary row that it inserts for them.
\<close>

definition month_entries :: "Database \<Rightarrow> str \<Rightarrow> str \<Rightarrow> journal_dict list" where
  "month_entries db s e =
     map (dict_of_row db)
       (order_by_date_desc (filter (in_bounds s e) (journal_entries (connection db))))"

definition summary_row :: "Database \<Rightarrow> environ \<Rightarrow> datetime \<Rightarrow> str \<Rightarrow> str \<Rightarrow> journal_row" where
  "summary_row db env t s e =
     inserted_row (connection db) s
       (fernet_encrypt (fernet db) env (condense_text t (month_entries db s e))) 1"

text \<open>The first and the last instant of a calendar month.\<close>

definition first_instant :: "int \<Rightarrow> int \<Rightarrow> datetime" where
  "first_instant y m =
     \<lparr>year = y, month = m, day = 1, hour = 0, minute = 0, second = 0, microsecond = 0\<rparr>"

definition last_instant :: "int \<Rightarrow> int \<Rightarrow> datetime" where
  "last_instant y m =
     \<lparr>year = y, month = m, day = days_in_month y m, hour = 23, minute = 59, second = 59,
      microsecond = 999999\<rparr>"

text \<open>The layout of an ISO string, with the fields as natural numbers.\<close>

definition fmt :: "nat \<Rightarrow> nat \<Rightarrow> nat \<Rightarrow> nat \<Rightarrow> nat \<Rightarrow> nat \<Rightarrow> nat \<Rightarrow> str" where
  "fmt Y M D h mi s us =
     zero_pad 4 Y @ ''-'' @ zero_pad 2 M @ ''-'' @ zero_pad 2 D @ ''T'' @ zero_pad 2 h @ '':''
     @ zero_pad 2 mi @ '':'' @ zero_pad 2 s
     @ (if us \<noteq> 0 then ''.'' @ zero_pad 6 us else [])"

section \<open>Lemmas\<close>


lemma utf8_valid_Nil: "utf8_valid []"
  by (simp add: utf8_valid_def)


lemma utf8_step_ascii: "(of_char c :: nat) < 128 \<Longrightarrow> utf8_step U0 c = U0"
  by (simp add: in_range_def)

lemma utf8_valid_ascii: "(\<And>c. c \<in> set s \<Longrightarrow> (of_char c :: nat) < 128) \<Longrightarrow> utf8_valid s"
proof (induction s rule: rev_induct)
  case Nil
  then show ?case by (simp add: utf8_valid_def)
next
  case (snoc x xs)
  have "utf8_step U0 x = U0" by (rule utf8_step_ascii) (simp add: snoc.prems)
  moreover have "utf8_valid xs" by (rule snoc.IH) (simp add: snoc.prems)
  ultimately show ?case by (simp add: utf8_valid_def)
qed

lemma encrypt_ok:
  "cipher_ok (fernet db) \<Longrightarrow> valid_environ env \<Longrightarrow>
   encrypt db env s = Inr (fernet_encrypt (fernet db) env s)"
  by (simp add: encrypt_def cipher_ok_def decode_def encode_def)

lemma decrypt_encrypt:
  "cipher_ok (fernet db) \<Longrightarrow> valid_environ env \<Longrightarrow> utf8_valid s \<Longrightarrow>
   decrypt db (fernet_encrypt (fernet db) env s) = Inr s"
  by (simp add: decrypt_def cipher_ok_def decode_def encode_def)

lemma zero_pad_length: "length (zero_pad w n) = w"
  by (induction w n rule: zero_pad.induct) simp_all

lemma isoformat_nonempty: "isoformat d \<noteq> []"
proof -
  have "length (isoformat d) \<ge> 19"
    by (simp add: isoformat_def zero_pad_length)
  then show ?thesis by auto
qed

lemma month_bounds_strings:
  assumes "month_bounds m y = Inr (t, s, e)"
  shows "s = isoformat t" "s \<noteq> []" "e \<noteq> []" "year t = y" "month t = m" "valid_datetime t"
  using assms
  by (auto simp: month_bounds_def datetime_of_date_def check_datetime_def isoformat_nonempty
      split: sum.splits if_splits)

lemma decrypt_rows_readable:
  "list_all (readable db) rows \<Longrightarrow> decrypt_rows db rows = Inr (map (dict_of_row db) rows)"
  by (induction rows) (auto simp: readable_def dict_of_row_def split: sum.splits)

lemma decrypt_rows_Inr:
  "decrypt_rows db rows = Inr es \<Longrightarrow> list_all (readable db) rows \<and> es = map (dict_of_row db) rows"
  by (induction rows arbitrary: es) (auto simp: readable_def dict_of_row_def split: sum.splits)

lemma decrypt_rows_iff:
  "decrypt_rows db rows = Inr es \<longleftrightarrow> list_all (readable db) rows \<and> es = map (dict_of_row db) rows"
  using decrypt_rows_readable decrypt_rows_Inr by blast

lemma set_order_by [simp]: "set (order_by_date_desc rows) = set rows"
  by (simp add: order_by_date_desc_def)

lemma mset_order_by [simp]: "mset (order_by_date_desc rows) = mset rows"
  by (simp add: order_by_date_desc_def)

lemma length_order_by [simp]: "length (order_by_date_desc rows) = length rows"
  by (simp add: order_by_date_desc_def)

lemma order_by_Nil_iff [simp]: "order_by_date_desc rows = [] \<longleftrightarrow> rows = []"
  using length_order_by [of rows] by (metis length_0_conv)

lemma sorted_order_by: "sorted_wrt (\<lambda>a b. a \<ge> b) (map row_date (order_by_date_desc rows))"
proof -
  have "sorted (map row_date (sort_key row_date (rev rows)))" by simp
  then show ?thesis
    by (simp add: order_by_date_desc_def rev_map [symmetric] sorted_wrt_rev del: sorted_sort_key)
qed

lemma where_date_none [simp]: "where_date None None d"
  by (simp add: where_date_def)

lemma where_date_bounds:
  "s \<noteq> [] \<Longrightarrow> e \<noteq> [] \<Longrightarrow> where_date (Some s) (Some e) d \<longleftrightarrow> s \<le> d \<and> d \<le> e"
  by (simp add: where_date_def)

lemma get_journal_entries_iff:
  "get_journal_entries db s e = Inr es \<longleftrightarrow>
     list_all (readable db) (select_journal s e (connection db))
     \<and> es = map (dict_of_row db) (select_journal s e (connection db))"
  by (simp add: get_journal_entries_def decrypt_rows_iff)

lemma dict_date_of_row [simp]: "dict_date (dict_of_row db r) = row_date r"
  and dict_id_of_row [simp]: "dict_id (dict_of_row db r) = row_id r"
  and dict_flag_of_row [simp]: "dict_is_condensed (dict_of_row db r) = (row_is_condensed r \<noteq> 0)"
  by (simp_all add: dict_of_row_def)

lemma listing_sorted:
  assumes "get_journal_entries db None None = Inr es"
  shows "sorted_wrt (\<lambda>a b. a \<ge> b) (map dict_date es)"
proof -
  from assms have "es = map (dict_of_row db) (select_journal None None (connection db))"
    by (simp add: get_journal_entries_iff)
  then have "map dict_date es = map row_date (select_journal None None (connection db))"
    by (simp add: comp_def)
  then show ?thesis by (simp add: select_journal_def sorted_order_by)
qed

lemma execute_fernet [simp]: "fernet (execute db s) = fernet db"
  by (cases s) simp_all

lemma run_fernet [simp]: "fernet (run db ss) = fernet db"
  unfolding run_def by (induction ss arbitrary: db) simp_all

lemma readable_fernet: "fernet db' = fernet db \<Longrightarrow> readable db' r = readable db r"
  by (simp add: readable_def decrypt_def)

lemma dict_of_row_fernet: "fernet db' = fernet db \<Longrightarrow> dict_of_row db' r = dict_of_row db r"
  by (simp add: dict_of_row_def decrypt_def)

lemma select_all [simp]: "select_journal None None t = order_by_date_desc (journal_entries t)"
  by (simp add: select_journal_def)

lemma listing_all_iff:
  "get_journal_entries db None None = Inr es \<longleftrightarrow>
     (\<forall>r \<in> set (journal_entries (connection db)). readable db r)
     \<and> es = map (dict_of_row db) (order_by_date_desc (journal_entries (connection db)))"
  by (simp add: get_journal_entries_iff list_all_iff)

lemma add_journal_entry_ok:
  assumes "cipher_ok (fernet db)" "valid_environ env"
  shows "add_journal_entry env entry date db =
           Inr (run db [InsertJournal (call_date env date) (fernet_encrypt (fernet db) env entry) 0,
                        Commit])"
  using assms by (simp add: add_journal_entry_def encrypt_ok call_date_def)

lemma connection_insert:
  "journal_entries (connection (run db [InsertJournal d e c, Commit])) =
     journal_entries (connection db)
     @ [\<lparr>row_id = next_rowid (journal_entries (connection db)) (journal_entries_seq (connection db)),
         row_date = d, row_entry = e, row_is_condensed = c\<rparr>]"
  by (simp add: run_def Let_def)

lemma add_journal_entry_listing:
  assumes ok: "cipher_ok (fernet db)" and env: "valid_environ env" and utf: "utf8_valid entry"
    and old: "get_journal_entries db None None = Inr es0"
  shows "\<exists>db' es. add_journal_entry env entry date db = Inr db' \<and> fernet db' = fernet db
           \<and> get_journal_entries db' None None = Inr es
           \<and> mset (map date_and_text es) = mset (map date_and_text es0) + {#(call_date env date, entry)#}"
proof -
  let ?tok = "fernet_encrypt (fernet db) env entry"
  let ?db' = "run db [InsertJournal (call_date env date) ?tok 0, Commit]"
  let ?rows = "journal_entries (connection db)"
  let ?new = "\<lparr>row_id = next_rowid ?rows (journal_entries_seq (connection db)),
         row_date = call_date env date, row_entry = ?tok, row_is_condensed = 0\<rparr>"
  have add: "add_journal_entry env entry date db = Inr ?db'"
    by (rule add_journal_entry_ok [OF ok env])
  have rows': "journal_entries (connection ?db') = ?rows @ [?new]"
    by (rule connection_insert)
  have f: "fernet ?db' = fernet db" by simp
  from old have rd: "\<forall>r \<in> set ?rows. readable db r"
    and es0: "es0 = map (dict_of_row db) (order_by_date_desc ?rows)"
    by (simp_all add: listing_all_iff)
  have dec: "decrypt db ?tok = Inr entry" by (rule decrypt_encrypt [OF ok env utf])
  then have rnew: "readable db ?new" by (simp add: readable_def)
  have all: "\<forall>r \<in> set (journal_entries (connection ?db')). readable ?db' r"
    using rd rnew by (auto simp: rows' readable_fernet [OF f])
  let ?es = "map (dict_of_row ?db') (order_by_date_desc (journal_entries (connection ?db')))"
  have get: "get_journal_entries ?db' None None = Inr ?es"
    using all by (simp add: listing_all_iff)
  have "mset (map date_and_text ?es)
        = image_mset (date_and_text \<circ> dict_of_row db) (mset (order_by_date_desc (?rows @ [?new])))"
    by (simp add: rows' dict_of_row_fernet [OF f] comp_def cong: map_cong)
  also have "\<dots> = image_mset (date_and_text \<circ> dict_of_row db) (mset ?rows)
                   + {#date_and_text (dict_of_row db ?new)#}"
    by simp
  also have "image_mset (date_and_text \<circ> dict_of_row db) (mset ?rows) = mset (map date_and_text es0)"
    by (simp add: es0 comp_def)
  also have "date_and_text (dict_of_row db ?new) = (call_date env date, entry)"
    using dec by (simp add: date_and_text_def dict_of_row_def)
  finally show ?thesis using add f get by blast
qed

lemma execute_committed: "s \<noteq> Commit \<Longrightarrow> committed (execute db s) = committed db"
  by (cases s) simp_all

lemma run_committed: "Commit \<notin> set ss \<Longrightarrow> committed (run db ss) = committed db"
  unfolding run_def by (induction ss arbitrary: db) (auto simp: execute_committed)

lemma run_append: "run db (ss @ ts) = run (run db ss) ts"
  by (simp add: run_def)

lemma run_Cons: "run db (s # ss) = run (execute db s) ss"
  by (simp add: run_def)

lemma run_Nil: "run db [] = db"
  by (simp add: run_def)

lemma run_deletes:
  "run db (map DeleteJournal ids) =
     db\<lparr>connection := (connection db)\<lparr>journal_entries :=
          filter (\<lambda>r. row_id r \<notin> set ids) (journal_entries (connection db))\<rparr>\<rparr>"
proof (induction ids arbitrary: db)
  case Nil
  then show ?case by (simp add: run_Nil)
next
  case (Cons i ids)
  show ?case
    by (simp add: run_Cons Cons.IH conj_commute cong: filter_cong)
qed

lemma foldr_max_ge: "x \<in> set xs \<Longrightarrow> x \<le> foldr max xs (0::int)"
  by (induction xs) auto

lemma next_rowid_gt: "r \<in> set rows \<Longrightarrow> row_id r < next_rowid rows seq"
  using foldr_max_ge [of "row_id r" "map row_id rows"] by (simp add: next_rowid_def)

lemma condense_script_alt:
  "condense_script d e entries =
     InsertJournal d e 1 # map DeleteJournal (map dict_id entries) @ [Commit]"
  by (simp add: condense_script_def comp_def)

lemma run_condense_script:
  "run db (condense_script d e entries) =
     execute
       (run (execute db (InsertJournal d e 1)) (map DeleteJournal (map dict_id entries)))
       Commit"
  unfolding condense_script_alt by (simp only: run_Cons run_append run_Nil)

lemma connection_condense_script:
  "connection (run db (condense_script d e entries)) =
     (connection db)\<lparr>journal_entries :=
         filter (\<lambda>r. row_id r \<notin> dict_id ` set entries)
           (journal_entries (connection db) @ [inserted_row (connection db) d e 1]),
       journal_entries_seq := row_id (inserted_row (connection db) d e 1)\<rparr>"
  unfolding run_condense_script run_deletes
  by (simp add: Let_def inserted_row_def)

lemma committed_condense_script:
  "committed (run db (condense_script d e entries)) =
     connection (run db (condense_script d e entries))"
  unfolding run_condense_script by simp

lemma select_bounds:
  "s \<noteq> [] \<Longrightarrow> e \<noteq> [] \<Longrightarrow>
   select_journal (Some s) (Some e) t
     = order_by_date_desc (filter (in_bounds s e) (journal_entries t))"
  by (simp add: select_journal_def where_date_def in_bounds_def [abs_def])

lemma condense_plan_unfold:
  assumes "month_bounds m y = Inr (t, s, e)"
  shows "condense_plan env m y db =
     (case get_journal_entries db (Some s) (Some e) of
        Inl err \<Rightarrow> Inl err
      | Inr entries \<Rightarrow>
          if entries = [] then Inr None
          else (case encrypt db env (condense_text t entries) of
                  Inl err \<Rightarrow> Inl err
                | Inr tok \<Rightarrow> Inr (Some (entries, condense_script s tok entries))))"
proof -
  have "s = isoformat t" by (rule month_bounds_strings(1) [OF assms])
  show ?thesis
    using assms unfolding \<open>s = isoformat t\<close> by (simp add: condense_plan_def)
qed

lemma condense_plan_Some:
  assumes "month_bounds m y = Inr (t, s, e)"
    and "condense_plan env m y db = Inr (Some (entries, script))"
  shows "entries \<noteq> []"
    and "entries = map (dict_of_row db)
           (order_by_date_desc (filter (in_bounds s e) (journal_entries (connection db))))"
    and "\<exists>tok. encrypt db env (condense_text t entries) = Inr tok
           \<and> script = condense_script s tok entries"
  using assms(2) month_bounds_strings(2,3) [OF assms(1)]
  unfolding condense_plan_unfold [OF assms(1)]
  by (auto simp: get_journal_entries_iff select_bounds split: sum.splits if_splits)

lemma condense_cases:
  assumes "condense_journal_entries env m y db = Inr db'"
  shows "(condense_plan env m y db = Inr None \<and> db' = db)
       \<or> (\<exists>entries script. condense_plan env m y db = Inr (Some (entries, script))
             \<and> db' = run db script)"
  using assms by (auto simp: condense_journal_entries_def split: sum.splits option.splits)

lemma ids_of_entries:
  "dict_id ` set (map (dict_of_row db) (order_by_date_desc (filter P rows)))
     = row_id ` {r \<in> set rows. P r}"
  by (auto simp: image_iff)

lemma distinct_ids_eq:
  "distinct (map row_id rows) \<Longrightarrow> r \<in> set rows \<Longrightarrow> r' \<in> set rows \<Longrightarrow>
   row_id r = row_id r' \<Longrightarrow> r = r'"
  by (meson distinct_map inj_onD)

lemma journal_after_script:
  assumes d: "distinct (map row_id rows)"
    and rows: "rows = journal_entries (connection db)"
    and entries: "entries = map (dict_of_row db) (order_by_date_desc (filter P rows))"
  shows "journal_entries (connection (run db (condense_script s tok entries)))
           = filter (\<lambda>r. \<not> P r) rows @ [inserted_row (connection db) s tok 1]"
proof -
  let ?new = "inserted_row (connection db) s tok 1"
  have ids: "dict_id ` set entries = row_id ` {r \<in> set rows. P r}"
    unfolding entries by (rule ids_of_entries)
  have new: "row_id ?new \<notin> dict_id ` set entries"
  proof
    assume "row_id ?new \<in> dict_id ` set entries"
    then obtain r where "r \<in> set rows" "row_id r = row_id ?new" by (auto simp: ids)
    with next_rowid_gt [of r rows "journal_entries_seq (connection db)"]
    show False by (simp add: inserted_row_def rows [symmetric])
  qed
  have old: "r \<in> set rows \<Longrightarrow> row_id r \<notin> dict_id ` set entries \<longleftrightarrow> \<not> P r" for r
    using distinct_ids_eq [OF d] by (auto simp: ids)
  have "filter (\<lambda>r. row_id r \<notin> dict_id ` set entries) rows = filter (\<lambda>r. \<not> P r) rows"
    by (rule filter_cong) (simp_all add: old)
  then show ?thesis
    using new by (simp add: connection_condense_script rows [symmetric])
qed

lemma utf8_valid_Cons_ascii:
  "(of_char c :: nat) < 128 \<Longrightarrow> utf8_valid (c # s) \<longleftrightarrow> utf8_valid s"
  by (simp add: utf8_valid_def utf8_step_ascii del: utf8_step.simps)

lemma digit_char_ascii: "(of_char (digit_char n) :: nat) < 128"
proof -
  have "\<forall>c \<in> set ''0123456789''. (of_char c :: nat) < 128" by simp
  moreover have "n mod 10 < length ''0123456789''" by simp
  ultimately show ?thesis unfolding digit_char_def by (metis nth_mem)
qed

lemma utf8_valid_zero_pad: "utf8_valid (zero_pad w n @ s) \<longleftrightarrow> utf8_valid s"
proof (induction w n arbitrary: s rule: zero_pad.induct)
  case (1 n)
  then show ?case by simp
next
  case (2 w n)
  show ?case using "2.IH" [of "digit_char n # s"]
    by (simp add: utf8_valid_Cons_ascii digit_char_ascii)
qed

lemma utf8_valid_isoformat: "utf8_valid (isoformat d)"
  by (simp add: isoformat_def utf8_valid_zero_pad utf8_valid_Cons_ascii utf8_valid_Nil
      utf8_valid_zero_pad [of _ _ "[]", simplified])





lemma condense_plan_ok:
  assumes ok: "cipher_ok (fernet db)" and env: "valid_environ env"
    and mb: "month_bounds m y = Inr (t, s, e)"
    and rd: "\<forall>r \<in> set (journal_entries (connection db)). in_bounds s e r \<longrightarrow> readable db r"
  shows "condense_plan env m y db =
     (let entries = map (dict_of_row db)
            (order_by_date_desc (filter (in_bounds s e) (journal_entries (connection db))))
      in if entries = [] then Inr None
         else Inr (Some (entries,
                condense_script s (fernet_encrypt (fernet db) env (condense_text t entries))
                  entries)))"
proof -
  let ?sel = "order_by_date_desc (filter (in_bounds s e) (journal_entries (connection db)))"
  have "list_all (readable db) ?sel" using rd by (simp add: list_all_iff)
  then have "get_journal_entries db (Some s) (Some e) = Inr (map (dict_of_row db) ?sel)"
    using month_bounds_strings(2,3) [OF mb]
    by (simp add: get_journal_entries_iff select_bounds)
  then show ?thesis
    by (simp add: condense_plan_unfold [OF mb] encrypt_ok [OF ok env] Let_def)
qed

lemma unnibble_nibble_pair:
  "unnibble (nibble_pair c @ rest) = map_option (\<lambda>r. c # r) (unnibble rest)"
proof -
  let ?n = "of_char c :: nat"
  have n: "?n < 256" by simp
  have hi: "?n div 16 < 16" using n by arith
  have lo: "?n mod 16 < 16" by simp
  have 1: "of_char (char_of (97 + ?n div 16)) = 97 + ?n div 16"
    using hi by simp
  have 2: "of_char (char_of (97 + ?n mod 16)) = 97 + ?n mod 16"
    using lo by simp
  have 3: "char_of (?n div 16 * 16 + ?n mod 16) = c" by simp
  have 4: "?n div 16 \<le> 15" "?n mod 16 \<le> 15" using hi lo by arith+
  show ?thesis
    by (simp add: nibble_pair_def in_range_def 1 2 3 4 del: of_char_of)
qed

lemma unnibble_concat: "unnibble (concat (map nibble_pair data)) = Some data"
  by (induction data) (simp_all add: unnibble_nibble_pair)

lemma nibble_pair_valid: "utf8_valid (nibble_pair c @ s) \<longleftrightarrow> utf8_valid s"
proof -
  let ?n = "of_char c :: nat"
  have n: "?n < 256" by simp
  have hi: "?n div 16 < 16" using n by arith
  have lo: "?n mod 16 < 16" by simp
  have 1: "(of_char (char_of (97 + ?n div 16)) :: nat) < 128"
    using hi by simp
  have 2: "(of_char (char_of (97 + ?n mod 16)) :: nat) < 128"
    using lo by simp
  show ?thesis
    by (simp add: nibble_pair_def utf8_valid_Cons_ascii 1 2 del: of_char_of)
qed

lemma nibbles_valid: "utf8_valid (concat (map nibble_pair data))"
  by (induction data) (simp_all add: utf8_valid_Nil nibble_pair_valid)

lemma stand_in_cipher_ok: "cipher_ok stand_in_cipher"
  by (simp add: cipher_ok_def stand_in_cipher_def unnibble_concat nibbles_valid)

lemma database_with_simps:
  "fernet (database_with rows) = stand_in_cipher"
  "journal_entries (connection (database_with rows)) = rows"
  "journal_entries_seq (connection (database_with rows)) = int (length rows)"
  "committed (database_with rows) = connection (database_with rows)"
  by (simp_all add: database_with_def Let_def)

lemma example_environ_valid: "valid_environ example_environ"
  by (simp add: valid_environ_def example_environ_def valid_datetime_def days_in_month_def)

lemma zero_pad_2: "zero_pad 2 n = [digit_char (n div 10), digit_char n]"
proof -
  have "zero_pad (Suc (Suc 0)) n = [digit_char (n div 10), digit_char n]" by simp
  then show ?thesis by (simp only: numeral_2_eq_2)
qed

lemma zero_pad_4:
  "zero_pad 4 n =
     [digit_char (n div 1000), digit_char (n div 100), digit_char (n div 10), digit_char n]"
proof -
  have "zero_pad (Suc (Suc (Suc (Suc 0)))) n =
     [digit_char (n div 1000), digit_char (n div 100), digit_char (n div 10), digit_char n]"
    by (simp add: div_mult2_eq [symmetric])
  moreover have "(4::nat) = Suc (Suc (Suc (Suc 0)))" by simp
  ultimately show ?thesis by (simp only:)
qed

lemma zero_pad_6:
  "zero_pad 6 n =
     [digit_char (n div 100000), digit_char (n div 10000), digit_char (n div 1000),
      digit_char (n div 100), digit_char (n div 10), digit_char n]"
proof -
  have "zero_pad (Suc (Suc (Suc (Suc (Suc (Suc 0)))))) n =
     [digit_char (n div 100000), digit_char (n div 10000), digit_char (n div 1000),
      digit_char (n div 100), digit_char (n div 10), digit_char n]"
    by (simp add: div_mult2_eq [symmetric])
  moreover have "(6::nat) = Suc (Suc (Suc (Suc (Suc (Suc 0)))))" by simp
  ultimately show ?thesis by (simp only:)
qed

lemma example_now: "isoformat (now example_environ) = ''2024-03-05T10:20:30.000123''"
  by (simp add: example_environ_def isoformat_def zero_pad_2 zero_pad_4 zero_pad_6 digit_char_def)

lemma condense_month:
  assumes ok: "cipher_ok (fernet db)" and env: "valid_environ env"
    and mb: "month_bounds m y = Inr (t, s, e)"
    and d: "distinct (map row_id (journal_entries (connection db)))"
    and ne: "filter (in_bounds s e) (journal_entries (connection db)) \<noteq> []"
    and rd: "\<forall>r \<in> set (journal_entries (connection db)). in_bounds s e r \<longrightarrow> readable db r"
  shows "\<exists>db'. condense_journal_entries env m y db = Inr db'
           \<and> fernet db' = fernet db
           \<and> committed db' = connection db'
           \<and> journal_entries (connection db')
               = filter (\<lambda>r. \<not> in_bounds s e r) (journal_entries (connection db))
                 @ [summary_row db env t s e]
           \<and> journal_entries_seq (connection db') = row_id (summary_row db env t s e)"
proof -
  let ?entries = "month_entries db s e"
  let ?tok = "fernet_encrypt (fernet db) env (condense_text t ?entries)"
  let ?db' = "run db (condense_script s ?tok ?entries)"
  have "?entries \<noteq> []" using ne by (simp add: month_entries_def)
  then have "condense_plan env m y db = Inr (Some (?entries, condense_script s ?tok ?entries))"
    by (simp add: condense_plan_ok [OF ok env mb rd] month_entries_def Let_def)
  then have 1: "condense_journal_entries env m y db = Inr ?db'"
    by (simp add: condense_journal_entries_def)
  have 2: "journal_entries (connection ?db')
             = filter (\<lambda>r. \<not> in_bounds s e r) (journal_entries (connection db))
               @ [summary_row db env t s e]"
    unfolding summary_row_def
    by (rule journal_after_script [OF d refl]) (simp add: month_entries_def)
  have 3: "journal_entries_seq (connection ?db') = row_id (summary_row db env t s e)"
    by (simp add: connection_condense_script summary_row_def)
  show ?thesis
    using 1 2 3 by (simp add: committed_condense_script)
qed


lemma plus_days_4:
  "plus_days 4 d = plus_days (Suc (Suc (Suc (Suc 0)))) d"
proof -
  have "(4::nat) = Suc (Suc (Suc (Suc 0)))" by simp
  then show ?thesis by (simp only:)
qed

lemma month_bounds_value:
  assumes "1 \<le> m" "m \<le> 12" "1 \<le> y" "y \<le> 9999" "\<not> (m = 12 \<and> y = 9999)"
  shows "month_bounds m y =
           Inr (first_instant y m, isoformat (first_instant y m), isoformat (last_instant y m))"
proof -
  from assms(1,2) have "m = 1 \<or> m = 2 \<or> m = 3 \<or> m = 4 \<or> m = 5 \<or> m = 6 \<or> m = 7 \<or> m = 8
      \<or> m = 9 \<or> m = 10 \<or> m = 11 \<or> m = 12" by arith
  then show ?thesis using assms(3-5)
    by (elim disjE)
       (simp_all add: month_bounds_def datetime_of_date_def check_datetime_def
          valid_datetime_def days_in_month_def replace_day_def next_day_def plus_days_4
          replace_first_instant_def minus_microsecond_def prev_day_def first_instant_def
          last_instant_def)
qed

lemma month_bounds_may_2023:
  "month_bounds 5 2023 = Inr (may_2023, ''2023-05-01T00:00:00'', ''2023-05-31T23:59:59.999999'')"
proof -
  have "first_instant 2023 5 = may_2023" by (simp add: first_instant_def may_2023_def)
  moreover have "isoformat (first_instant 2023 5) = ''2023-05-01T00:00:00''"
    by (simp add: first_instant_def isoformat_def zero_pad_2 zero_pad_4 digit_char_def)
  moreover have "isoformat (last_instant 2023 5) = ''2023-05-31T23:59:59.999999''"
    by (simp add: last_instant_def days_in_month_def isoformat_def zero_pad_2 zero_pad_4
        zero_pad_6 digit_char_def)
  ultimately show ?thesis using month_bounds_value [of 5 2023] by simp
qed

lemma next_rowid_single: "0 \<le> row_id r \<Longrightarrow> next_rowid [r] (row_id r) = row_id r + 1"
  by (simp add: next_rowid_def)

lemma foldr_max_nonneg: "0 \<le> foldr max xs (0::int)"
  by (induction xs) auto

lemma next_rowid_pos: "0 < next_rowid rows seq"
  using foldr_max_nonneg [of "map row_id rows"] by (simp add: next_rowid_def)

lemma length_condense_text:
  "length (dict_entry d) < length (condense_text t [d])"
  by (simp add: condense_text_def)



lemma stored_simps:
  "row_id (stored i d s) = i" "row_date (stored i d s) = d"
  "row_is_condensed (stored i d s) = 0"
  by (simp_all add: stored_def)

lemma readable_stored:
  assumes "utf8_valid s"
  shows "readable (database_with rows) (stored i d s)"
    and "dict_of_row (database_with rows) (stored i d s)
           = \<lparr>dict_id = i, dict_date = d, dict_entry = s, dict_is_condensed = False\<rparr>"
proof -
  have "decrypt (database_with rows) (row_entry (stored i d s)) = Inr s"
    using decrypt_encrypt [of "database_with rows" example_environ s] assms
    by (simp add: database_with_simps stand_in_cipher_ok example_environ_valid stored_def)
  then show "readable (database_with rows) (stored i d s)"
    and "dict_of_row (database_with rows) (stored i d s)
           = \<lparr>dict_id = i, dict_date = d, dict_entry = s, dict_is_condensed = False\<rparr>"
    by (simp_all add: readable_def dict_of_row_def stored_simps)
qed

lemma may_rows_facts:
  "distinct (map row_id may_rows)"
  "may_rows \<noteq> []"
  "\<forall>r \<in> set may_rows. in_bounds ''2023-05-01T00:00:00'' ''2023-05-31T23:59:59.999999'' r"
  "\<forall>r \<in> set may_rows. utf8_valid (row_date r)"
  "\<forall>r \<in> set may_rows. readable (database_with rows) r"
  by (simp_all add: may_rows_def stored_simps in_bounds_def utf8_valid_Cons_ascii
      utf8_valid_Nil readable_stored)


lemma length_condense_script: "length (condense_script d tok entries) = length entries + 2"
  by (simp add: condense_script_def)

lemma take_condense_script:
  "k \<le> length entries + 1 \<Longrightarrow> Commit \<notin> set (take k (condense_script d tok entries))"
proof -
  assume k: "k \<le> length entries + 1"
  have "take k (condense_script d tok entries)
          = take k (InsertJournal d tok 1 # map DeleteJournal (map dict_id entries))"
    using k unfolding condense_script_alt by (simp add: take_Cons')
  moreover have "Commit \<notin> set (InsertJournal d tok 1 # map DeleteJournal (map dict_id entries))"
    by auto
  ultimately show ?thesis by (metis in_set_takeD)
qed

lemma order_may_rows: "order_by_date_desc may_rows = rev may_rows"
  by (simp add: order_by_date_desc_def may_rows_def stored_simps)

lemma may_plan:
  "condense_plan example_environ 5 2023 (database_with may_rows)
     = Inr (Some (month_entries (database_with may_rows) ''2023-05-01T00:00:00''
                    ''2023-05-31T23:59:59.999999'',
                  condense_script ''2023-05-01T00:00:00''
                    (fernet_encrypt stand_in_cipher example_environ
                       (condense_text may_2023
                          (month_entries (database_with may_rows) ''2023-05-01T00:00:00''
                             ''2023-05-31T23:59:59.999999'')))
                    (month_entries (database_with may_rows) ''2023-05-01T00:00:00''
                       ''2023-05-31T23:59:59.999999'')))"
  and may_entries_ids:
  "map dict_id (month_entries (database_with may_rows) ''2023-05-01T00:00:00''
      ''2023-05-31T23:59:59.999999'') = [5, 4, 3, 2, 1]"
proof -
  let ?db = "database_with may_rows"
  let ?s = "''2023-05-01T00:00:00''" and ?e = "''2023-05-31T23:59:59.999999''"
  have ok: "cipher_ok (fernet ?db)" by (simp add: database_with_simps stand_in_cipher_ok)
  have rd: "\<forall>r \<in> set (journal_entries (connection ?db)). in_bounds ?s ?e r \<longrightarrow> readable ?db r"
    using may_rows_facts(5) [of may_rows] by (simp add: database_with_simps)
  have all: "filter (in_bounds ?s ?e) may_rows = may_rows"
    using may_rows_facts(3) by simp
  have ne: "month_entries ?db ?s ?e \<noteq> []"
    using may_rows_facts(2) by (simp add: month_entries_def database_with_simps all)
  show "condense_plan example_environ 5 2023 ?db
          = Inr (Some (month_entries ?db ?s ?e,
                   condense_script ?s
                     (fernet_encrypt stand_in_cipher example_environ
                        (condense_text may_2023 (month_entries ?db ?s ?e)))
                     (month_entries ?db ?s ?e)))"
    using ne
    by (simp add: condense_plan_ok [OF ok example_environ_valid month_bounds_may_2023 rd]
        month_entries_def [symmetric] database_with_simps(1) Let_def)
  show "map dict_id (month_entries ?db ?s ?e) = [5, 4, 3, 2, 1]"
    by (simp add: month_entries_def database_with_simps all order_may_rows)
       (simp add: may_rows_def stored_simps)
qed

lemma run_profile:
  "user_profile (connection (run db [InsertProfile p, Commit])) = user_profile (connection db) @ [(1, p)]"
  "user_profile (connection (run db [UpdateProfile p, Commit]))
     = map (\<lambda>(i, x). if i = 1 then (i, p) else (i, x)) (user_profile (connection db))"
  "committed (run db [s, Commit]) = connection (run db [s, Commit])"
  "fernet (run db ss) = fernet db"
  by (simp_all add: run_Cons run_Nil)

lemma save_user_profile_row:
  assumes ok: "cipher_ok (fernet db)" and env: "valid_environ env"
    and tab: "user_profile (connection db) = [] \<or> (\<exists>x. user_profile (connection db) = [(1, x)])"
    and js: "json_dumps json m = Inr json_data"
  shows "\<exists>db'. save_user_profile json env m db = Inr db'
           \<and> fernet db' = fernet db
           \<and> committed db' = connection db'
           \<and> user_profile (connection db') = [(1, fernet_encrypt (fernet db) env json_data)]"
  using tab
  by (auto simp: save_user_profile_def js encrypt_ok [OF ok env] run_profile Let_def)

lemma get_user_profile_row:
  assumes ok: "cipher_ok (fernet db)" and env: "valid_environ env"
    and tab: "user_profile (connection db) = [(1, fernet_encrypt (fernet db) env json_data)]"
    and valid: "utf8_valid json_data"
  shows "get_user_profile json db = json_loads json json_data"
  by (simp add: get_user_profile_def tab decrypt_encrypt [OF ok env valid])

lemma test_profile_json:
  "json_dumps stand_in_json test_profile
     = Inr ''{\"name\": \"Test User\", \"age\": \"30\", \"gender\": \"Non-binary\", \"therapy_goal\": \"Reduce anxiety\"}''"
  "json_loads stand_in_json
     ''{\"name\": \"Test User\", \"age\": \"30\", \"gender\": \"Non-binary\", \"therapy_goal\": \"Reduce anxiety\"}''
     = Inr test_profile"
  "utf8_valid
     ''{\"name\": \"Test User\", \"age\": \"30\", \"gender\": \"Non-binary\", \"therapy_goal\": \"Reduce anxiety\"}''"
  by (simp_all add: stand_in_json_def test_profile_def utf8_valid_Cons_ascii utf8_valid_Nil)

lemma le_append_same_length:
  fixes a b :: "'a::linorder list"
  assumes "length a = length b"
  shows "a @ x \<le> b @ y \<longleftrightarrow> a < b \<or> (a = b \<and> x \<le> y)"
  using assms by (induction a b rule: list_induct2) auto

lemma less_append_same_length:
  fixes a b :: "'a::linorder list"
  assumes "length a = length b"
  shows "a @ x < b @ y \<longleftrightarrow> a < b \<or> (a = b \<and> x < y)"
  using assms by (induction a b rule: list_induct2) auto

lemma digit_table: "i < 10 \<Longrightarrow> (of_char (''0123456789'' ! i) :: nat) = 48 + i"
proof -
  assume "i < 10"
  then have "i = 0 \<or> i = 1 \<or> i = 2 \<or> i = 3 \<or> i = 4 \<or> i = 5 \<or> i = 6 \<or> i = 7 \<or> i = 8 \<or> i = 9"
    by arith
  then show ?thesis by (elim disjE) simp_all
qed

lemma of_char_digit: "(of_char (digit_char n) :: nat) = 48 + n mod 10"
  unfolding digit_char_def by (rule digit_table) simp

lemma digit_char_less_iff: "digit_char a < digit_char b \<longleftrightarrow> a mod 10 < b mod 10"
  by (simp add: less_char_def of_char_digit)

lemma digit_char_eq_iff: "digit_char a = digit_char b \<longleftrightarrow> a mod 10 = b mod 10"
proof
  assume "digit_char a = digit_char b"
  then have "(of_char (digit_char a) :: nat) = of_char (digit_char b)" by simp
  then show "a mod 10 = b mod 10" by (simp add: of_char_digit)
next
  assume "a mod 10 = b mod 10"
  then show "digit_char a = digit_char b" by (simp add: digit_char_def)
qed

lemma a1: "(n div 10 = k div 10 \<and> n mod 10 = k mod 10) \<longleftrightarrow> n = k" for n k :: nat
  by (metis div_mult_mod_eq)

lemma a2: "(n div 10 < k div 10 \<or> (n div 10 = k div 10 \<and> n mod 10 < k mod 10)) \<longleftrightarrow> n < k" for n k :: nat
proof -
  have n: "n = 10 * (n div 10) + n mod 10" and k: "k = 10 * (k div 10) + k mod 10" by simp_all
  have "n mod 10 < 10" "k mod 10 < 10" by simp_all
  then show ?thesis using n k by linarith
qed

lemma zero_pad_eq_iff:
  "n < 10 ^ w \<Longrightarrow> k < 10 ^ w \<Longrightarrow> zero_pad w n = zero_pad w k \<longleftrightarrow> n = k"
proof (induction w arbitrary: n k)
  case 0
  then show ?case by simp
next
  case (Suc w)
  from Suc.prems have *: "n div 10 < 10 ^ w" "k div 10 < 10 ^ w"
    by (simp_all add: less_mult_imp_div_less mult.commute)
  have "zero_pad (Suc w) n = zero_pad (Suc w) k
          \<longleftrightarrow> zero_pad w (n div 10) = zero_pad w (k div 10) \<and> digit_char n = digit_char k"
    by (simp add: zero_pad_length)
  also have "\<dots> \<longleftrightarrow> n div 10 = k div 10 \<and> n mod 10 = k mod 10"
    by (simp only: Suc.IH [OF *] digit_char_eq_iff)
  also have "\<dots> \<longleftrightarrow> n = k" by (rule a1)
  finally show ?case .
qed

lemma zero_pad_less_iff:
  "n < 10 ^ w \<Longrightarrow> k < 10 ^ w \<Longrightarrow> zero_pad w n < zero_pad w k \<longleftrightarrow> n < k"
proof (induction w arbitrary: n k)
  case 0
  then show ?case by simp
next
  case (Suc w)
  from Suc.prems have *: "n div 10 < 10 ^ w" "k div 10 < 10 ^ w"
    by (simp_all add: less_mult_imp_div_less mult.commute)
  have "zero_pad (Suc w) n < zero_pad (Suc w) k
          \<longleftrightarrow> zero_pad w (n div 10) < zero_pad w (k div 10)
              \<or> (zero_pad w (n div 10) = zero_pad w (k div 10) \<and> digit_char n < digit_char k)"
    by (simp add: less_append_same_length zero_pad_length)
  also have "\<dots> \<longleftrightarrow> n div 10 < k div 10 \<or> (n div 10 = k div 10 \<and> n mod 10 < k mod 10)"
    by (simp only: Suc.IH [OF *] zero_pad_eq_iff [OF *] digit_char_less_iff)
  also have "\<dots> \<longleftrightarrow> n < k" by (rule a2)
  finally show ?case .
qed

lemma pad_less:
  "0 \<le> a \<Longrightarrow> a < 10 ^ w \<Longrightarrow> 0 \<le> b \<Longrightarrow> b < 10 ^ w \<Longrightarrow>
   zero_pad w (nat a) < zero_pad w (nat b) \<longleftrightarrow> a < b"
  by (subst zero_pad_less_iff) (auto simp: nat_less_iff nat_power_eq [symmetric] simp flip: of_nat_power)

lemma pad_eq:
  "0 \<le> a \<Longrightarrow> a < 10 ^ w \<Longrightarrow> 0 \<le> b \<Longrightarrow> b < 10 ^ w \<Longrightarrow>
   zero_pad w (nat a) = zero_pad w (nat b) \<longleftrightarrow> a = b"
  by (subst zero_pad_eq_iff) (auto simp: nat_less_iff nat_power_eq [symmetric] simp flip: of_nat_power)

lemma isoformat_fmt:
  "0 \<le> microsecond d \<Longrightarrow> isoformat d = fmt (nat (year d)) (nat (month d)) (nat (day d)) (nat (hour d))
                   (nat (minute d)) (nat (second d)) (nat (microsecond d))"
  by (cases "microsecond d = 0") (auto simp: isoformat_def fmt_def)

lemma le_append_right:
  fixes a b :: "'a::linorder list"
  assumes "length a = length b"
  shows "a \<le> b @ y \<longleftrightarrow> a < b \<or> a = b"
  using le_append_same_length [OF assms, of "[]" y] by simp

lemma le_append_left:
  fixes a b :: "'a::linorder list"
  assumes "length a = length b"
  shows "a @ x \<le> b \<longleftrightarrow> a < b \<or> (a = b \<and> x = [])"
  using le_append_same_length [OF assms, of x "[]"] by simp

lemma zero_pad_le_iff:
  "n < 10 ^ w \<Longrightarrow> k < 10 ^ w \<Longrightarrow> zero_pad w n \<le> zero_pad w k \<longleftrightarrow> n \<le> k"
  using zero_pad_less_iff [of n w k] zero_pad_eq_iff [of n w k] by (auto simp: le_less)

lemmas pad_order = le_append_same_length le_append_right le_append_left zero_pad_length
  zero_pad_less_iff zero_pad_eq_iff zero_pad_le_iff

lemma fmt_lower:
  assumes "y < 10 ^ 4" "Y < 10 ^ 4" "m < 10 ^ 2" "M < 10 ^ 2" "D < 10 ^ 2" "1 \<le> D"
    "h < 10 ^ 2" "mi < 10 ^ 2" "s < 10 ^ 2"
  shows "fmt y m 1 0 0 0 0 \<le> fmt Y M D h mi s us \<longleftrightarrow> y < Y \<or> (y = Y \<and> m \<le> M)"
  using assms
  by (auto simp add: fmt_def pad_order simp del: zero_pad.simps)

lemma fmt_upper:
  assumes "y < 10 ^ 4" "Y < 10 ^ 4" "m < 10 ^ 2" "M < 10 ^ 2" "L < 10 ^ 2" "D < 10 ^ 2"
    "h \<le> 23" "mi \<le> 59" "s \<le> 59" "us \<le> 999999"
  shows "fmt Y M D h mi s us \<le> fmt y m L 23 59 59 999999
           \<longleftrightarrow> Y < y \<or> (Y = y \<and> (M < m \<or> (M = m \<and> D \<le> L)))"
  using assms
  by (auto simp add: fmt_def pad_order simp del: zero_pad.simps)

lemma isoformat_in_month:
  assumes d: "valid_datetime d" and m: "1 \<le> m" "m \<le> 12" and y: "1 \<le> y" "y \<le> 9999"
  shows "isoformat (first_instant y m) \<le> isoformat d
           \<and> isoformat d \<le> isoformat (last_instant y m)
         \<longleftrightarrow> year d = y \<and> month d = m"
proof -
  have dim: "days_in_month y' m' \<le> 31" "1 \<le> days_in_month y' m'" for y' m'
    by (simp_all add: days_in_month_def)
  from d have v: "1 \<le> year d" "year d \<le> 9999" "1 \<le> month d" "month d \<le> 12" "1 \<le> day d"
    "day d \<le> days_in_month (year d) (month d)" "0 \<le> hour d" "hour d \<le> 23"
    "0 \<le> minute d" "minute d \<le> 59" "0 \<le> second d" "second d \<le> 59"
    "0 \<le> microsecond d" "microsecond d \<le> 999999"
    by (simp_all add: valid_datetime_def)
  have f: "isoformat (first_instant y m) = fmt (nat y) (nat m) 1 0 0 0 0"
    by (simp add: isoformat_fmt first_instant_def)
  have l: "isoformat (last_instant y m)
             = fmt (nat y) (nat m) (nat (days_in_month y m)) 23 59 59 999999"
    by (simp add: isoformat_fmt last_instant_def)
  have dd: "isoformat d = fmt (nat (year d)) (nat (month d)) (nat (day d)) (nat (hour d))
                   (nat (minute d)) (nat (second d)) (nat (microsecond d))"
    using v(13) by (rule isoformat_fmt)
  have "isoformat (first_instant y m) \<le> isoformat d
          \<longleftrightarrow> nat y < nat (year d) \<or> (nat y = nat (year d) \<and> nat m \<le> nat (month d))"
    unfolding f dd using v m y dim [of "year d" "month d"] by (intro fmt_lower) auto
  then have lo: "isoformat (first_instant y m) \<le> isoformat d
              \<longleftrightarrow> y < year d \<or> (y = year d \<and> m \<le> month d)"
    using v m y by auto
  have "isoformat d \<le> isoformat (last_instant y m)
          \<longleftrightarrow> nat (year d) < nat y \<or> (nat (year d) = nat y \<and> (nat (month d) < nat m
                \<or> (nat (month d) = nat m \<and> nat (day d) \<le> nat (days_in_month y m))))"
    unfolding l dd using v m y dim [of "year d" "month d"] dim [of y m]
    by (intro fmt_upper) auto
  then have hi: "isoformat d \<le> isoformat (last_instant y m)
              \<longleftrightarrow> year d < y \<or> (year d = y \<and> (month d < m
                    \<or> (month d = m \<and> day d \<le> days_in_month y m)))"
    using v m y dim [of y m] by auto
  show ?thesis unfolding lo hi using v(6) by auto
qed

lemma mset_select_bounds:
  "s \<noteq> [] \<Longrightarrow> e \<noteq> [] \<Longrightarrow>
   mset (select_journal (Some s) (Some e) t)
     = filter_mset (in_bounds s e) (mset (journal_entries t))"
  by (simp add: select_bounds)

lemma may_2023_instants:
  "first_instant 2023 5 = may_2023"
  "isoformat (first_instant 2023 5) = ''2023-05-01T00:00:00''"
  "isoformat may_2023 = ''2023-05-01T00:00:00''"
  "isoformat (last_instant 2023 5) = ''2023-05-31T23:59:59.999999''"
  "valid_datetime (last_instant 2023 5)"
  by (simp_all add: first_instant_def last_instant_def may_2023_def days_in_month_def
      isoformat_def zero_pad_2 zero_pad_4 zero_pad_6 digit_char_def valid_datetime_def)

lemma micro_le:
  assumes "0 \<le> a" "a < 10 ^ 6" "0 \<le> b" "b < 10 ^ 6"
  shows "(if a \<noteq> 0 then CHR ''.'' # zero_pad 6 (nat a) else [])
           \<le> (if b \<noteq> 0 then CHR ''.'' # zero_pad 6 (nat b) else []) \<longleftrightarrow> a \<le> b"
proof -
  have "zero_pad 6 (nat a) \<le> zero_pad 6 (nat b) \<longleftrightarrow> a \<le> b"
    using pad_less [OF assms] pad_eq [OF assms] by (auto simp: le_less)
  with assms show ?thesis by auto
qed

lemma field_le:
  assumes "0 \<le> a" "a < 10 ^ w" "0 \<le> b" "b < 10 ^ w"
  shows "zero_pad w (nat a) @ x \<le> zero_pad w (nat b) @ y \<longleftrightarrow> a < b \<or> (a = b \<and> x \<le> y)"
  using pad_less [OF assms] pad_eq [OF assms]
  by (simp add: le_append_same_length zero_pad_length)

lemma field_sep_le:
  assumes "0 \<le> a" "a < 10 ^ w" "0 \<le> b" "b < 10 ^ w"
  shows "zero_pad w (nat a) @ c # x \<le> zero_pad w (nat b) @ c # y \<longleftrightarrow> a < b \<or> (a = b \<and> x \<le> y)"
  using field_le [OF assms, of "c # x" "c # y"] by simp

lemma isoformat_le_iff:
  assumes a: "valid_datetime a" and b: "valid_datetime b"
  shows "isoformat a \<le> isoformat b \<longleftrightarrow> datetime_key a \<le> datetime_key b"
proof -
  have dim: "days_in_month y' m' \<le> 31" for y' m'
    by (simp add: days_in_month_def)
  from a dim [of "year a" "month a"]
  have va: "0 \<le> year a" "year a < 10 ^ 4" "0 \<le> month a" "month a < 10 ^ 2" "0 \<le> day a"
    "day a < 10 ^ 2" "0 \<le> hour a" "hour a < 10 ^ 2" "0 \<le> minute a" "minute a < 10 ^ 2"
    "0 \<le> second a" "second a < 10 ^ 2" "0 \<le> microsecond a" "microsecond a < 10 ^ 6"
    by (simp_all add: valid_datetime_def)
  from b dim [of "year b" "month b"]
  have vb: "0 \<le> year b" "year b < 10 ^ 4" "0 \<le> month b" "month b < 10 ^ 2" "0 \<le> day b"
    "day b < 10 ^ 2" "0 \<le> hour b" "hour b < 10 ^ 2" "0 \<le> minute b" "minute b < 10 ^ 2"
    "0 \<le> second b" "second b < 10 ^ 2" "0 \<le> microsecond b" "microsecond b < 10 ^ 6"
    by (simp_all add: valid_datetime_def)
  show ?thesis
    unfolding isoformat_def datetime_key_def append_Cons append_Nil
    by (simp only: field_sep_le [OF va(1,2) vb(1,2)] field_sep_le [OF va(3,4) vb(3,4)]
        field_sep_le [OF va(5,6) vb(5,6)] field_sep_le [OF va(7,8) vb(7,8)]
        field_sep_le [OF va(9,10) vb(9,10)] field_le [OF va(11,12) vb(11,12)]
        micro_le [OF va(13,14) vb(13,14)] Cons_le_Cons)
       (simp add: le_less)
qed

lemma utc_seconds_examples:
  "utc_seconds ''2024-03-05T10:00:00+05:00'' = Some 63845298000"
  "utc_seconds ''2024-03-05T09:00:00+00:00'' = Some 63845312400"
  by (simp_all add: utc_seconds_def decimal_value_def days_before_year_def
      days_before_month_def is_leap_def Let_def)

lemma add_journal_entries_listing:
  assumes "cipher_ok (fernet db)"
    and "get_journal_entries db None None = Inr es0"
    and "\<forall>(env, entry, date) \<in> set calls. valid_environ env \<and> utf8_valid entry"
  shows "\<exists>db' es. add_journal_entries calls db = Inr db'
           \<and> get_journal_entries db' None None = Inr es
           \<and> sorted_wrt (\<lambda>a b. a \<ge> b) (map dict_date es)
           \<and> mset (map date_and_text es)
               = mset (map date_and_text es0)
                 + mset (map (\<lambda>(env, entry, date). (call_date env date, entry)) calls)"
  using assms
proof (induction calls arbitrary: db es0)
  case Nil
  then show ?case by (auto intro: listing_sorted)
next
  case (Cons call calls)
  obtain env entry date where call: "call = (env, entry, date)" by (cases call)
  from Cons.prems(3) call have env: "valid_environ env" and utf: "utf8_valid entry" by auto
  from add_journal_entry_listing [OF Cons.prems(1) env utf Cons.prems(2), of date]
  obtain db1 es1 where 1: "add_journal_entry env entry date db = Inr db1"
    and f: "fernet db1 = fernet db"
    and g: "get_journal_entries db1 None None = Inr es1"
    and m: "mset (map date_and_text es1) = mset (map date_and_text es0) + {#(call_date env date, entry)#}"
    by blast
  from Cons.prems(3) have rest: "\<forall>(env, entry, date) \<in> set calls. valid_environ env \<and> utf8_valid entry"
    by simp
  from Cons.IH [OF _ g rest] Cons.prems(1) f
  obtain db' es where "add_journal_entries calls db1 = Inr db'"
    "get_journal_entries db' None None = Inr es"
    "sorted_wrt (\<lambda>a b. a \<ge> b) (map dict_date es)"
    "mset (map date_and_text es)
               = mset (map date_and_text es1)
                 + mset (map (\<lambda>(env, entry, date). (call_date env date, entry)) calls)"
    by auto
  then show ?case using 1 m call by (auto simp: ac_simps)
qed

lemma descending_unique:
  fixes xs :: "'a::linorder list"
  assumes "sorted_wrt (\<lambda>a b. a \<ge> b) xs" and "mset xs = mset ys"
  shows "xs = rev (sort ys)"
proof -
  have "sorted (rev xs)"
    using assms(1) by (simp add: sorted_wrt_rev)
  moreover have "mset (rev xs) = mset ys"
    using assms(2) by simp
  ultimately have "sort ys = rev xs"
    by (rule properties_for_sort [rotated])
  then show ?thesis by simp
qed

lemma listing_dates:
  assumes "sorted_wrt (\<lambda>a b. a \<ge> b) (map dict_date es)"
    and "mset (map date_and_text es) = mset ps"
  shows "map dict_date es = rev (sort (map fst ps))"
proof -
  from assms(2) have "image_mset fst (mset (map date_and_text es)) = image_mset fst (mset ps)"
    by (rule arg_cong)
  then have "mset (map dict_date es) = mset (map fst ps)"
    by (simp add: date_and_text_def multiset.map_comp comp_def)
  with assms(1) show ?thesis by (rule descending_unique)
qed

lemma save_twice_reads:
  assumes ok: "cipher_ok (fernet db)"
    and env: "valid_environ env" and env': "valid_environ env'"
    and tab: "user_profile (connection db) = [] \<or> (\<exists>x. user_profile (connection db) = [(1, x)])"
    and dumps: "json_dumps json m = Inr json_data"
    and valid: "utf8_valid json_data"
  shows "\<exists>db1 db2.
           save_user_profile json env m db = Inr db1
         \<and> save_user_profile json env' m db1 = Inr db2
         \<and> length (user_profile (connection db2)) = 1
         \<and> get_user_profile json db2 = json_loads json json_data"
proof -
  from save_user_profile_row [OF ok env tab dumps]
  obtain db1 where s1: "save_user_profile json env m db = Inr db1"
    and f1: "fernet db1 = fernet db"
    and t1: "user_profile (connection db1) = [(1, fernet_encrypt (fernet db) env json_data)]"
    by blast
  have ok1: "cipher_ok (fernet db1)" using ok f1 by simp
  have tab1: "user_profile (connection db1) = [] \<or> (\<exists>x. user_profile (connection db1) = [(1, x)])"
    using t1 by simp
  from save_user_profile_row [OF ok1 env' tab1 dumps]
  obtain db2 where s2: "save_user_profile json env' m db1 = Inr db2"
    and f2: "fernet db2 = fernet db1"
    and t2: "user_profile (connection db2) = [(1, fernet_encrypt (fernet db1) env' json_data)]"
    by blast
  have ok2: "cipher_ok (fernet db2)" using ok1 f2 by simp
  have t2': "user_profile (connection db2) = [(1, fernet_encrypt (fernet db2) env' json_data)]"
    using t2 f2 by simp
  have g2: "get_user_profile json db2 = json_loads json json_data"
    by (rule get_user_profile_row [OF ok2 env' t2' valid])
  show ?thesis
    using s1 s2 g2 by (auto simp: t2)
qed

lemma decimal_digit: "n < 10 \<Longrightarrow> decimal n = [digit_char n]"
  by (simp add: decimal.simps)

lemma tuple_profile_json:
  "json_dumps python_json [(''a'', PyTuple [PyInt 1, PyInt 2])]
     = Inr (''{'' @ [CHR 0x22] @ ''a'' @ [CHR 0x22] @ '': [1, 2]}'')"
  "utf8_valid (''{'' @ [CHR 0x22] @ ''a'' @ [CHR 0x22] @ '': [1, 2]}'')"
  "json_loads python_json (''{'' @ [CHR 0x22] @ ''a'' @ [CHR 0x22] @ '': [1, 2]}'')
     = Inr [(''a'', PyList [PyInt 1, PyInt 2])]"
  by (simp_all add: python_json_def dumps_dict_def dumps_int_def decimal_digit digit_char_def
      loads_dict_def after_def in_range_def utf8_valid_Cons_ascii utf8_valid_Nil)

section \<open>The claims\<close>

text \<open>
  C3, as amended.  For every sequence of \<open>add_journal_entry\<close> calls,
  \<open>get_journal_entries()\<close> without date arguments returns the entries in descending
  order of the stored timestamp strings, compared byte by byte, whatever the order of
  insertion; it holds the earlier entries and one entry per call, with the date and text
  of the call.  For timestamps in the form that \<open>datetime.isoformat()\<close> gives a naive
  \<open>datetime\<close>, the form the program writes when no date is passed, this is the order of
  the times: of two such entries the one listed first is not the older one.  The calls run
  on a handle whose listing already succeeds (a fresh store, for one), with valid text.
\<close>

theorem listing_newest_first:
  assumes "cipher_ok (fernet db)"
    and "get_journal_entries db None None = Inr es0"
    and "\<forall>(env, entry, date) \<in> set calls. valid_environ env \<and> utf8_valid entry"
  shows "\<exists>db' es. add_journal_entries calls db = Inr db'
           \<and> get_journal_entries db' None None = Inr es
           \<and> sorted_wrt (\<lambda>a b. a \<ge> b) (map dict_date es)
           \<and> mset (map date_and_text es)
               = mset (map date_and_text es0)
                 + mset (map (\<lambda>(env, entry, date). (call_date env date, entry)) calls)
           \<and> (\<forall>i j t u. i < j \<and> j < length es
                  \<and> valid_datetime t \<and> dict_date (es ! i) = isoformat t
                  \<and> valid_datetime u \<and> dict_date (es ! j) = isoformat u
                \<longrightarrow> datetime_key u \<le> datetime_key t)"
proof -
  from add_journal_entries_listing [OF assms]
  obtain db' es where 1: "add_journal_entries calls db = Inr db'"
    and 2: "get_journal_entries db' None None = Inr es"
    and 3: "sorted_wrt (\<lambda>a b. a \<ge> b) (map dict_date es)"
    and 4: "mset (map date_and_text es)
               = mset (map date_and_text es0)
                 + mset (map (\<lambda>(env, entry, date). (call_date env date, entry)) calls)"
    by blast
  have 5: "datetime_key u \<le> datetime_key t"
    if "i < j \<and> j < length es \<and> valid_datetime t \<and> dict_date (es ! i) = isoformat t
        \<and> valid_datetime u \<and> dict_date (es ! j) = isoformat u" for i j t u
  proof -
    from that have "i < j" "j < length (map dict_date es)" by simp_all
    with 3 have "map dict_date es ! i \<ge> map dict_date es ! j"
      by (rule sorted_wrt_nth_less)
    with that have "isoformat u \<le> isoformat t" by simp
    with that show ?thesis by (simp add: isoformat_le_iff)
  qed
  from 1 2 3 4 5 show ?thesis by blast
qed

theorem listing_newest_first_witness:
  "cipher_ok (fernet (database_with []))
   \<and> get_journal_entries (database_with []) None None = Inr []
   \<and> list_all (\<lambda>(env, entry, date). valid_environ env \<and> utf8_valid entry) example_calls
   \<and> (\<exists>db' es. add_journal_entries example_calls (database_with []) = Inr db'
         \<and> get_journal_entries db' None None = Inr es
         \<and> map dict_date es
             = [''2024-03-05T10:20:30.000123'', ''2024-03-05T08:30:00'', ''2024-03-04T09:00:00'']
         \<and> mset (map date_and_text es)
             = {#(''2024-03-04T09:00:00'', ''I am feeling better today.''),
                 (''2024-03-05T08:30:00'', ''Today was a difficult day.''),
                 (''2024-03-05T10:20:30.000123'', ''A good conversation.'')#})
   \<and> valid_datetime (now example_environ)
   \<and> isoformat (now example_environ) = ''2024-03-05T10:20:30.000123''
   \<and> valid_datetime ((now example_environ)\<lparr>hour := 8, minute := 30, second := 0, microsecond := 0\<rparr>)
   \<and> isoformat ((now example_environ)\<lparr>hour := 8, minute := 30, second := 0, microsecond := 0\<rparr>)
       = ''2024-03-05T08:30:00''
   \<and> datetime_key ((now example_environ)\<lparr>hour := 8, minute := 30, second := 0, microsecond := 0\<rparr>)
       \<le> datetime_key (now example_environ)"
proof -
  let ?t = "now example_environ"
  let ?u = "(now example_environ)\<lparr>hour := 8, minute := 30, second := 0, microsecond := 0\<rparr>"
  have 1: "cipher_ok (fernet (database_with []))"
    by (simp add: database_with_simps stand_in_cipher_ok)
  have 2: "get_journal_entries (database_with []) None None = Inr []"
    by (simp add: get_journal_entries_def database_with_simps order_by_date_desc_def)
  have 3: "\<forall>(env, entry, date) \<in> set example_calls. valid_environ env \<and> utf8_valid entry"
    by (simp add: example_calls_def example_environ_valid utf8_valid_Cons_ascii
        utf8_valid_Nil)
  have 4: "map (\<lambda>(env, entry, date). (call_date env date, entry)) example_calls
         = [(''2024-03-04T09:00:00'', ''I am feeling better today.''),
            (''2024-03-05T08:30:00'', ''Today was a difficult day.''),
            (''2024-03-05T10:20:30.000123'', ''A good conversation.'')]"
    by (simp add: example_calls_def call_date_def example_now)
  have 5: "list_all (\<lambda>(env, entry, date). valid_environ env \<and> utf8_valid entry) example_calls"
    using 3 unfolding list_all_iff .
  from listing_newest_first [OF 1 2 3, unfolded 4]
  obtain db' es where a: "add_journal_entries example_calls (database_with []) = Inr db'"
    and g: "get_journal_entries db' None None = Inr es"
    and s: "sorted_wrt (\<lambda>a b. a \<ge> b) (map dict_date es)"
    and m: "mset (map date_and_text es)
               = mset (map date_and_text [])
                 + mset [(''2024-03-04T09:00:00'', ''I am feeling better today.''),
                         (''2024-03-05T08:30:00'', ''Today was a difficult day.''),
                         (''2024-03-05T10:20:30.000123'', ''A good conversation.'')]"
    and o: "\<And>i j t u. i < j \<and> j < length es
                  \<and> valid_datetime t \<and> dict_date (es ! i) = isoformat t
                  \<and> valid_datetime u \<and> dict_date (es ! j) = isoformat u
                \<Longrightarrow> datetime_key u \<le> datetime_key t"
    by blast
  from m have m': "mset (map date_and_text es)
               = mset [(''2024-03-04T09:00:00'', ''I am feeling better today.''),
                       (''2024-03-05T08:30:00'', ''Today was a difficult day.''),
                       (''2024-03-05T10:20:30.000123'', ''A good conversation.'')]"
    by simp
  from listing_dates [OF s m']
  have d: "map dict_date es
             = [''2024-03-05T10:20:30.000123'', ''2024-03-05T08:30:00'', ''2024-03-04T09:00:00'']"
    by simp
  then have "length (map dict_date es) = 3"
    by simp
  then have len: "length es = 3"
    by simp
  have d0: "dict_date (es ! 0) = ''2024-03-05T10:20:30.000123''"
  proof -
    have "dict_date (es ! 0) = map dict_date es ! 0" using len by simp
    also have "\<dots> = ''2024-03-05T10:20:30.000123''" unfolding d by simp
    finally show ?thesis .
  qed
  have d1: "dict_date (es ! 1) = ''2024-03-05T08:30:00''"
  proof -
    have "dict_date (es ! 1) = map dict_date es ! 1" using len by simp
    also have "\<dots> = ''2024-03-05T08:30:00''" unfolding d by simp
    finally show ?thesis .
  qed
  have vt: "valid_datetime ?t"
    using example_environ_valid by (simp add: valid_environ_def)
  have vu: "valid_datetime ?u"
    by (simp add: example_environ_def valid_datetime_def days_in_month_def)
  have iu: "isoformat ?u = ''2024-03-05T08:30:00''"
    by (simp add: example_environ_def isoformat_def zero_pad_2 zero_pad_4 digit_char_def)
  have 6: "datetime_key ?u \<le> datetime_key ?t"
    by (rule o [of 0 1]) (simp only: len vt vu d0 d1 iu example_now, simp)
  have 7: "\<exists>db' es. add_journal_entries example_calls (database_with []) = Inr db'
         \<and> get_journal_entries db' None None = Inr es
         \<and> map dict_date es
             = [''2024-03-05T10:20:30.000123'', ''2024-03-05T08:30:00'', ''2024-03-04T09:00:00'']
         \<and> mset (map date_and_text es)
             = {#(''2024-03-04T09:00:00'', ''I am feeling better today.''),
                 (''2024-03-05T08:30:00'', ''Today was a difficult day.''),
                 (''2024-03-05T10:20:30.000123'', ''A good conversation.'')#}"
    using a g d m' by auto
  show ?thesis
    by (intro conjI 1 2 5 7 vt vu iu 6 example_now)
qed

text \<open>
  The claim as stated fails for ISO-8601 timestamps with UTC offsets: the entry written at
  05:00 Universal Time is listed before the one written at 09:00, because its string is the
  greater one.
\<close>

theorem offset_order_counterexample:
  "(case add_journal_entries
           [(example_environ, ''Written at 05:00 UTC.'', Some ''2024-03-05T10:00:00+05:00''),
            (example_environ, ''Written at 09:00 UTC.'', Some ''2024-03-05T09:00:00+00:00'')]
           (database_with []) of
      Inl e \<Rightarrow> False
    | Inr db' \<Rightarrow>
        (case get_journal_entries db' None None of
           Inl e \<Rightarrow> False
         | Inr es \<Rightarrow>
             map dict_date es = [''2024-03-05T10:00:00+05:00'', ''2024-03-05T09:00:00+00:00'']
             \<and> map utc_seconds (map dict_date es) = [Some 63845298000, Some 63845312400]))"
proof -
  let ?calls = "[(example_environ, ''Written at 05:00 UTC.'', Some ''2024-03-05T10:00:00+05:00''),
            (example_environ, ''Written at 09:00 UTC.'', Some ''2024-03-05T09:00:00+00:00'')]"
  have 1: "cipher_ok (fernet (database_with []))"
    by (simp add: database_with_simps stand_in_cipher_ok)
  have 2: "get_journal_entries (database_with []) None None = Inr []"
    by (simp add: get_journal_entries_def database_with_simps order_by_date_desc_def)
  have 3: "\<forall>(env, entry, date) \<in> set ?calls. valid_environ env \<and> utf8_valid entry"
    by (simp add: example_environ_valid utf8_valid_Cons_ascii utf8_valid_Nil)
  from add_journal_entries_listing [OF 1 2 3]
  obtain db' es where a: "add_journal_entries ?calls (database_with []) = Inr db'"
    and g: "get_journal_entries db' None None = Inr es"
    and s: "sorted_wrt (\<lambda>a b. a \<ge> b) (map dict_date es)"
    and m: "mset (map date_and_text es)
               = mset [(''2024-03-05T10:00:00+05:00'', ''Written at 05:00 UTC.''),
                       (''2024-03-05T09:00:00+00:00'', ''Written at 09:00 UTC.'')]"
    by (auto simp: call_date_def)
  from listing_dates [OF s m]
  have d: "map dict_date es = [''2024-03-05T10:00:00+05:00'', ''2024-03-05T09:00:00+00:00'']"
    by simp
  show ?thesis
    unfolding a sum.case g by (simp add: d utc_seconds_examples)
qed

text \<open>
  C10.  \<open>condense_journal_entries(month, year)\<close> changes only journal entries whose
  date lies within the bounds of the month: the rows outside the bounds are the same rows,
  in the same order, and the profile, therapy-session and therapist-note tables are
  unchanged.  Row ids are unique, as the primary key makes them.  When the call raises, it
  does so before its first statement, and nothing has changed.
\<close>

theorem condense_frame:
  assumes "condense_journal_entries env m y db = Inr db'"
    and "month_bounds m y = Inr (t, s, e)"
    and "distinct (map row_id (journal_entries (connection db)))"
  shows "filter (\<lambda>r. \<not> in_bounds s e r) (journal_entries (connection db'))
           = filter (\<lambda>r. \<not> in_bounds s e r) (journal_entries (connection db))
       \<and> user_profile (connection db') = user_profile (connection db)
       \<and> therapy_sessions (connection db') = therapy_sessions (connection db)
       \<and> therapy_sessions_seq (connection db') = therapy_sessions_seq (connection db)
       \<and> therapist_notes (connection db') = therapist_notes (connection db)
       \<and> therapist_notes_seq (connection db') = therapist_notes_seq (connection db)"
proof -
  from condense_cases [OF assms(1)] show ?thesis
  proof (elim disjE exE conjE)
    assume "db' = db"
    then show ?thesis by simp
  next
    fix entries script
    assume plan: "condense_plan env m y db = Inr (Some (entries, script))"
      and db': "db' = run db script"
    let ?rows = "journal_entries (connection db)"
    note p = condense_plan_Some [OF assms(2) plan]
    from p(3) obtain tok where script: "script = condense_script s tok entries" by blast
    have j: "journal_entries (connection db')
               = filter (\<lambda>r. \<not> in_bounds s e r) ?rows @ [inserted_row (connection db) s tok 1]"
      unfolding db' script by (rule journal_after_script [OF assms(3) refl p(2)])
    from p(1,2) have "filter (in_bounds s e) ?rows \<noteq> []" by auto
    then obtain r where "r \<in> set ?rows" "in_bounds s e r"
      by (auto simp: filter_empty_conv)
    then have "s \<le> e" by (auto simp: in_bounds_def)
    then have "in_bounds s e (inserted_row (connection db) s tok 1)"
      by (simp add: in_bounds_def inserted_row_def)
    then have "filter (\<lambda>r. \<not> in_bounds s e r) (journal_entries (connection db'))
           = filter (\<lambda>r. \<not> in_bounds s e r) ?rows"
      by (simp add: j)
    moreover have "user_profile (connection db') = user_profile (connection db)"
      "therapy_sessions (connection db') = therapy_sessions (connection db)"
      "therapy_sessions_seq (connection db') = therapy_sessions_seq (connection db)"
      "therapist_notes (connection db') = therapist_notes (connection db)"
      "therapist_notes_seq (connection db') = therapist_notes_seq (connection db)"
      unfolding db' script by (simp_all add: connection_condense_script)
    ultimately show ?thesis by simp
  qed
qed

theorem condense_frame_witness:
  "\<exists>db'. condense_journal_entries example_environ 5 2023 (database_with (may_rows @ [june_row]))
          = Inr db'
     \<and> month_bounds 5 2023
          = Inr (may_2023, ''2023-05-01T00:00:00'', ''2023-05-31T23:59:59.999999'')
     \<and> distinct (map row_id (journal_entries (connection (database_with (may_rows @ [june_row])))))
     \<and> filter (\<lambda>r. \<not> in_bounds ''2023-05-01T00:00:00'' ''2023-05-31T23:59:59.999999'' r)
          (journal_entries (connection db')) = [june_row]
     \<and> user_profile (connection db') = []
     \<and> therapy_sessions (connection db') = []
     \<and> therapist_notes (connection db') = []"
proof -
  let ?s = "''2023-05-01T00:00:00''" and ?e = "''2023-05-31T23:59:59.999999''"
  let ?db = "database_with (may_rows @ [june_row])"
  have ok: "cipher_ok (fernet ?db)" by (simp add: database_with_simps stand_in_cipher_ok)
  note env = example_environ_valid
  note mb = month_bounds_may_2023
  have uniq: "distinct (map row_id (journal_entries (connection ?db)))"
    by (simp add: database_with_simps may_rows_def june_row_def stored_simps)
  have out: "filter (\<lambda>r. \<not> in_bounds ?s ?e r) (journal_entries (connection ?db)) = [june_row]"
    using may_rows_facts(3)
    by (simp add: database_with_simps june_row_def in_bounds_def stored_simps)
  have ne: "filter (in_bounds ?s ?e) (journal_entries (connection ?db)) \<noteq> []"
    using may_rows_facts(2,3) by (simp add: database_with_simps filter_empty_conv) 
  have rd: "\<forall>r \<in> set (journal_entries (connection ?db)). in_bounds ?s ?e r \<longrightarrow> readable ?db r"
    using may_rows_facts(5) [of "may_rows @ [june_row]"]
    by (simp add: database_with_simps june_row_def readable_stored utf8_valid_Cons_ascii
        utf8_valid_Nil)
  from condense_month [OF ok env mb uniq ne rd]
  obtain db' where c: "condense_journal_entries example_environ 5 2023 ?db = Inr db'"
    by blast
  have tabs: "user_profile (connection ?db) = []" "therapy_sessions (connection ?db) = []"
    "therapist_notes (connection ?db) = []"
    by (simp_all add: database_with_def Let_def empty_tables_def)
  from condense_frame [OF c mb uniq] show ?thesis
    using c mb uniq by (auto simp: out tabs)
qed




text \<open>
  C2, as amended.  The insertion of the summary and the deletions of the originals run in
  one implicit transaction that only the final \<open>commit()\<close> ends.  If the call is
  aborted after any number of its statements short of that commit, the database file still
  holds exactly what it held before, all originals and no summary; after the commit it
  holds the summary and none of the originals.  So a reader of the file (another handle, or
  the file reopened after this handle is closed, which rolls the transaction back) never
  sees a mixed state.  The handle on which the call was aborted is different: nothing
  rolls its transaction back, and it keeps seeing the partial changes.
\<close>

theorem condense_commit_boundary:
  assumes plan: "condense_plan env m y db = Inr (Some (entries, script))"
    and mb: "month_bounds m y = Inr (t, s, e)"
    and clean: "committed db = connection db"
    and k: "k < length script"
  shows "committed (run db (take k script)) = connection db
       \<and> dict_id ` set entries \<subseteq> row_id ` set (journal_entries (connection db))
       \<and> committed (run db script) = connection (run db script)
       \<and> dict_id ` set entries \<inter> row_id ` set (journal_entries (committed (run db script))) = {}
       \<and> (\<exists>tok. inserted_row (connection db) s tok 1
                    \<in> set (journal_entries (committed (run db script))))"
proof -
  note p = condense_plan_Some [OF mb plan]
  from p(3) obtain tok where script: "script = condense_script s tok entries" by blast
  from k have "k \<le> length entries + 1" by (simp add: script length_condense_script)
  then have "Commit \<notin> set (take k script)" unfolding script by (rule take_condense_script)
  then have 1: "committed (run db (take k script)) = connection db"
    by (simp add: run_committed clean)
  have 2: "dict_id ` set entries \<subseteq> row_id ` set (journal_entries (connection db))"
    unfolding p(2) by (auto simp: image_iff)
  have 3: "committed (run db script) = connection (run db script)"
    unfolding script by (rule committed_condense_script)
  let ?new = "inserted_row (connection db) s tok 1"
  have j: "journal_entries (connection (run db script))
             = filter (\<lambda>r. row_id r \<notin> dict_id ` set entries)
                 (journal_entries (connection db) @ [?new])"
    unfolding script by (simp add: connection_condense_script)
  have 4: "dict_id ` set entries \<inter> row_id ` set (journal_entries (committed (run db script))) = {}"
  proof -
    have "\<forall>r \<in> set (journal_entries (connection (run db script))).
            row_id r \<notin> dict_id ` set entries"
      unfolding j by simp
    then have "\<And>x r. x \<in> set entries \<Longrightarrow>
        r \<in> set (journal_entries (connection (run db script))) \<Longrightarrow> dict_id x \<noteq> row_id r"
      by (metis imageI)
    then show ?thesis unfolding 3 by (auto simp: disjoint_iff)
  qed
  have "row_id ?new \<notin> dict_id ` set entries"
  proof
    assume "row_id ?new \<in> dict_id ` set entries"
    with 2 obtain r where "r \<in> set (journal_entries (connection db))" "row_id r = row_id ?new"
      by (auto simp: image_iff)
    with next_rowid_gt [of r "journal_entries (connection db)" "journal_entries_seq (connection db)"]
    show False by (simp add: inserted_row_def)
  qed
  then have "?new \<in> set (journal_entries (committed (run db script)))"
    unfolding 3 j by simp
  then show ?thesis using 1 2 3 4 by blast
qed

theorem condense_commit_boundary_witness:
  "\<exists>entries script.
      condense_plan example_environ 5 2023 (database_with may_rows) = Inr (Some (entries, script))
    \<and> month_bounds 5 2023
          = Inr (may_2023, ''2023-05-01T00:00:00'', ''2023-05-31T23:59:59.999999'')
    \<and> committed (database_with may_rows) = connection (database_with may_rows)
    \<and> 3 < length script
    \<and> committed (run (database_with may_rows) (take 3 script))
          = connection (database_with may_rows)
    \<and> dict_id ` set entries = {1, 2, 3, 4, 5}
    \<and> committed (run (database_with may_rows) script)
          = connection (run (database_with may_rows) script)
    \<and> dict_id ` set entries
        \<inter> row_id ` set (journal_entries (committed (run (database_with may_rows) script))) = {}
    \<and> (\<exists>tok. inserted_row (connection (database_with may_rows)) ''2023-05-01T00:00:00'' tok 1
                 \<in> set (journal_entries (committed (run (database_with may_rows) script))))"
proof -
  let ?db = "database_with may_rows"
  let ?s = "''2023-05-01T00:00:00''" and ?e = "''2023-05-31T23:59:59.999999''"
  let ?entries = "month_entries ?db ?s ?e"
  let ?script = "condense_script ?s
                   (fernet_encrypt stand_in_cipher example_environ
                      (condense_text may_2023 ?entries)) ?entries"
  note plan = may_plan
  note mb = month_bounds_may_2023
  have clean: "committed ?db = connection ?db" by (simp add: database_with_simps)
  have "length ?entries = 5" using arg_cong [OF may_entries_ids, of length] by simp
  then have k: "3 < length ?script" by (simp add: length_condense_script)
  have ids: "dict_id ` set ?entries = {1, 2, 3, 4, 5}"
    using arg_cong [OF may_entries_ids, of set] by auto
  from condense_commit_boundary [OF plan mb clean k] show ?thesis
    using plan mb clean k ids by blast
qed

text \<open>
  The claim as stated fails for a reader on the same handle: with the five entries of the
  repository's test, an abort after the insertion and the first deletion leaves that handle
  with four originals and the summary.
\<close>

theorem condense_abort_counterexample:
  "(case condense_plan example_environ 5 2023 (database_with may_rows) of
      Inr (Some (entries, script)) \<Rightarrow>
        map row_id (journal_entries (connection (run (database_with may_rows) (take 2 script))))
          = [1, 2, 3, 4, 6]
        \<and> map row_is_condensed
              (journal_entries (connection (run (database_with may_rows) (take 2 script))))
          = [0, 0, 0, 0, 1]
    | _ \<Rightarrow> False)"
proof -
  let ?db = "database_with may_rows"
  let ?s = "''2023-05-01T00:00:00''" and ?e = "''2023-05-31T23:59:59.999999''"
  let ?entries = "month_entries ?db ?s ?e"
  let ?tok = "fernet_encrypt stand_in_cipher example_environ (condense_text may_2023 ?entries)"
  from may_entries_ids obtain x xs where xs: "?entries = x # xs" and x: "dict_id x = 5"
    by (cases ?entries) auto
  have t: "take 2 (condense_script ?s ?tok ?entries) = [InsertJournal ?s ?tok 1, DeleteJournal 5]"
    by (simp add: condense_script_def xs x take_Cons')
  have "journal_entries (connection (run ?db [InsertJournal ?s ?tok 1, DeleteJournal 5]))
          = filter (\<lambda>r. row_id r \<noteq> 5)
              (may_rows @ [\<lparr>row_id = 6, row_date = ?s, row_entry = ?tok, row_is_condensed = 1\<rparr>])"
    by (simp add: run_Cons run_Nil database_with_simps Let_def next_rowid_def)
       (simp add: may_rows_def stored_simps)
  then show ?thesis
    by (simp add: may_plan t) (simp add: may_rows_def stored_simps)
qed

text \<open>
  C7, as amended.  For every dictionary \<open>m\<close> that \<open>json\<close> serialises and reads back as
  \<open>m\<close>, two calls of \<open>save_user_profile(m)\<close> in succession yield
  \<open>get_user_profile() == m\<close>, and after the first call as after the second the profile
  table holds exactly one row, on the handle and in the file.  The store starts as the
  program can leave it: without a profile row, or with the one row of id 1.
\<close>

theorem save_user_profile_twice:
  assumes ok: "cipher_ok (fernet db)"
    and env: "valid_environ env" and env': "valid_environ env'"
    and tab: "user_profile (connection db) = [] \<or> (\<exists>x. user_profile (connection db) = [(1, x)])"
    and dumps: "json_dumps json m = Inr json_data"
    and valid: "utf8_valid json_data"
    and loads: "json_loads json json_data = Inr m"
  shows "\<exists>db1 db2.
           save_user_profile json env m db = Inr db1
         \<and> length (user_profile (connection db1)) = 1
         \<and> length (user_profile (committed db1)) = 1
         \<and> get_user_profile json db1 = Inr m
         \<and> save_user_profile json env' m db1 = Inr db2
         \<and> length (user_profile (connection db2)) = 1
         \<and> length (user_profile (committed db2)) = 1
         \<and> get_user_profile json db2 = Inr m"
proof -
  from save_user_profile_row [OF ok env tab dumps]
  obtain db1 where s1: "save_user_profile json env m db = Inr db1"
    and f1: "fernet db1 = fernet db"
    and c1: "committed db1 = connection db1"
    and t1: "user_profile (connection db1) = [(1, fernet_encrypt (fernet db) env json_data)]"
    by blast
  have ok1: "cipher_ok (fernet db1)" using ok f1 by simp
  have t1': "user_profile (connection db1) = [(1, fernet_encrypt (fernet db1) env json_data)]"
    using t1 f1 by simp
  have g1: "get_user_profile json db1 = Inr m"
    using get_user_profile_row [OF ok1 env t1' valid, of json] loads by simp
  have tab1: "user_profile (connection db1) = [] \<or> (\<exists>x. user_profile (connection db1) = [(1, x)])"
    using t1 by simp
  from save_user_profile_row [OF ok1 env' tab1 dumps]
  obtain db2 where s2: "save_user_profile json env' m db1 = Inr db2"
    and f2: "fernet db2 = fernet db1"
    and c2: "committed db2 = connection db2"
    and t2: "user_profile (connection db2) = [(1, fernet_encrypt (fernet db1) env' json_data)]"
    by blast
  have ok2: "cipher_ok (fernet db2)" using ok1 f2 by simp
  have t2': "user_profile (connection db2) = [(1, fernet_encrypt (fernet db2) env' json_data)]"
    using t2 f2 by simp
  have g2: "get_user_profile json db2 = Inr m"
    using get_user_profile_row [OF ok2 env' t2' valid, of json] loads by simp
  show ?thesis
    using s1 g1 s2 g2 by (auto simp: c1 c2 t1 t2)
qed

theorem save_user_profile_twice_witness:
  "cipher_ok (fernet (database_with []))
   \<and> valid_environ example_environ
   \<and> user_profile (connection (database_with [])) = []
   \<and> json_dumps stand_in_json test_profile
       = Inr ''{\"name\": \"Test User\", \"age\": \"30\", \"gender\": \"Non-binary\", \"therapy_goal\": \"Reduce anxiety\"}''
   \<and> utf8_valid
       ''{\"name\": \"Test User\", \"age\": \"30\", \"gender\": \"Non-binary\", \"therapy_goal\": \"Reduce anxiety\"}''
   \<and> json_loads stand_in_json
       ''{\"name\": \"Test User\", \"age\": \"30\", \"gender\": \"Non-binary\", \"therapy_goal\": \"Reduce anxiety\"}''
       = Inr test_profile
   \<and> (\<exists>db1 db2.
           save_user_profile stand_in_json example_environ test_profile (database_with []) = Inr db1
         \<and> length (user_profile (connection db1)) = 1
         \<and> length (user_profile (committed db1)) = 1
         \<and> get_user_profile stand_in_json db1 = Inr test_profile
         \<and> save_user_profile stand_in_json example_environ test_profile db1 = Inr db2
         \<and> length (user_profile (connection db2)) = 1
         \<and> length (user_profile (committed db2)) = 1
         \<and> get_user_profile stand_in_json db2 = Inr test_profile)"
proof -
  have ok: "cipher_ok (fernet (database_with []))"
    by (simp add: database_with_simps stand_in_cipher_ok)
  have tab: "user_profile (connection (database_with [])) = []"
    by (simp add: database_with_def Let_def empty_tables_def)
  then have tab': "user_profile (connection (database_with [])) = []
      \<or> (\<exists>x. user_profile (connection (database_with [])) = [(1, x)])" by simp
  note * = save_user_profile_twice [OF ok example_environ_valid example_environ_valid tab'
      test_profile_json(1) test_profile_json(3) test_profile_json(2)]
  show ?thesis
    by (intro conjI ok example_environ_valid tab test_profile_json *)
qed

text \<open>
  The claim as stated fails for a dictionary that \<open>json\<close> serialises but does not
  read back unchanged: \<open>{'a': (1, 2)}\<close> is stored as \<open>{"a": [1, 2]}\<close> and
  comes back as \<open>{'a': [1, 2]}\<close>, a list in place of the tuple.
\<close>

theorem tuple_profile_counterexample:
  "(case save_user_profile python_json example_environ [(''a'', PyTuple [PyInt 1, PyInt 2])]
           (database_with []) of
      Inl e \<Rightarrow> False
    | Inr db1 \<Rightarrow>
        (case save_user_profile python_json example_environ [(''a'', PyTuple [PyInt 1, PyInt 2])]
                db1 of
           Inl e \<Rightarrow> False
         | Inr db2 \<Rightarrow>
             length (user_profile (connection db2)) = 1
             \<and> get_user_profile python_json db2 = Inr [(''a'', PyList [PyInt 1, PyInt 2])]
             \<and> get_user_profile python_json db2 \<noteq> Inr [(''a'', PyTuple [PyInt 1, PyInt 2])]))"
proof -
  let ?m = "[(''a'', PyTuple [PyInt 1, PyInt 2])]"
  have ok: "cipher_ok (fernet (database_with []))"
    by (simp add: database_with_simps stand_in_cipher_ok)
  have tab: "user_profile (connection (database_with [])) = []
             \<or> (\<exists>x. user_profile (connection (database_with [])) = [(1, x)])"
    by (simp add: database_with_def empty_tables_def Let_def)
  from save_twice_reads [OF ok example_environ_valid example_environ_valid tab
      tuple_profile_json(1) tuple_profile_json(2)]
  obtain db1 db2 where 1: "save_user_profile python_json example_environ ?m (database_with []) = Inr db1"
    and 2: "save_user_profile python_json example_environ ?m db1 = Inr db2"
    and 3: "length (user_profile (connection db2)) = 1"
    and 4: "get_user_profile python_json db2
              = json_loads python_json (''{'' @ [CHR 0x22] @ ''a'' @ [CHR 0x22] @ '': [1, 2]}'')"
    by blast
  show ?thesis
    unfolding 1 sum.case 2 4 tuple_profile_json(3) using 3 by simp
qed

text \<open>
  C6, as amended.  For every month from 1 to 12 and every year from 1 to 9999, December
  9999 apart, the bounds that \<open>condense_journal_entries\<close> computes are the ISO strings
  of the first instant of that month (day 1, 00:00:00) and of its last instant (its last
  day, leap years included, 23:59:59.999999).  The entries fetched for condensation are
  exactly the journal entries, condensed or not, whose stored date string lies between
  the two bounds in the byte order of the strings.  For a date written by
  \<open>datetime.isoformat()\<close> this is the same as lying in that calendar month.
\<close>

theorem month_range_and_fetch:
  assumes "1 \<le> m" "m \<le> 12" "1 \<le> y" "y \<le> 9999" "\<not> (m = 12 \<and> y = 9999)"
  shows "month_bounds m y
           = Inr (first_instant y m, isoformat (first_instant y m), isoformat (last_instant y m))
       \<and> (\<forall>entries. get_journal_entries db (Some (isoformat (first_instant y m)))
                       (Some (isoformat (last_instant y m))) = Inr entries
             \<longrightarrow> mset entries
                   = image_mset (dict_of_row db)
                       (filter_mset
                          (in_bounds (isoformat (first_instant y m)) (isoformat (last_instant y m)))
                          (mset (journal_entries (connection db)))))
       \<and> (\<forall>entries script. condense_plan env m y db = Inr (Some (entries, script))
             \<longrightarrow> get_journal_entries db (Some (isoformat (first_instant y m)))
                       (Some (isoformat (last_instant y m))) = Inr entries)
       \<and> (\<forall>d r. valid_datetime d \<and> row_date r = isoformat d
             \<longrightarrow> (in_bounds (isoformat (first_instant y m)) (isoformat (last_instant y m)) r
                    \<longleftrightarrow> year d = y \<and> month d = m))"
proof -
  let ?s = "isoformat (first_instant y m)" and ?e = "isoformat (last_instant y m)"
  have mb: "month_bounds m y = Inr (first_instant y m, ?s, ?e)"
    by (rule month_bounds_value [OF assms])
  have 2: "mset entries
             = image_mset (dict_of_row db)
                 (filter_mset (in_bounds ?s ?e) (mset (journal_entries (connection db))))"
    if "get_journal_entries db (Some ?s) (Some ?e) = Inr entries" for entries
  proof -
    from that have "entries = map (dict_of_row db) (select_journal (Some ?s) (Some ?e) (connection db))"
      by (simp add: get_journal_entries_iff)
    then show ?thesis
      by (simp add: mset_select_bounds isoformat_nonempty)
  qed
  have 3: "get_journal_entries db (Some ?s) (Some ?e) = Inr entries"
    if "condense_plan env m y db = Inr (Some (entries, script))" for entries script
    using that unfolding condense_plan_unfold [OF mb]
    by (auto split: sum.splits if_splits)
  have 4: "in_bounds ?s ?e r \<longleftrightarrow> year d = y \<and> month d = m"
    if "valid_datetime d \<and> row_date r = isoformat d" for d r
    using that isoformat_in_month [of d m y] assms(1-4) by (simp add: in_bounds_def)
  show ?thesis using mb 2 3 4 by blast
qed

theorem month_range_and_fetch_witness:
  "(1::int) \<le> 5 \<and> (5::int) \<le> 12 \<and> (1::int) \<le> 2023 \<and> (2023::int) \<le> 9999
   \<and> month_bounds 5 2023
       = Inr (may_2023, ''2023-05-01T00:00:00'', ''2023-05-31T23:59:59.999999'')
   \<and> (\<exists>entries.
         get_journal_entries (database_with (may_rows @ [june_row]))
           (Some ''2023-05-01T00:00:00'') (Some ''2023-05-31T23:59:59.999999'') = Inr entries
         \<and> mset (map dict_id entries) = {#1, 2, 3, 4, 5#})
   \<and> valid_datetime (last_instant 2023 5)
   \<and> in_bounds ''2023-05-01T00:00:00'' ''2023-05-31T23:59:59.999999''
         (stored 7 (isoformat (last_instant 2023 5)) ''Late'')"
proof -
  let ?s = "''2023-05-01T00:00:00''" and ?e = "''2023-05-31T23:59:59.999999''"
  let ?db = "database_with (may_rows @ [june_row])"
  have prem: "(1::int) \<le> 5" "(5::int) \<le> 12" "(1::int) \<le> 2023" "(2023::int) \<le> 9999"
    "\<not> ((5::int) = 12 \<and> (2023::int) = 9999)" by simp_all
  note * = month_range_and_fetch [OF prem, of ?db example_environ, unfolded may_2023_instants]
  have 1: "month_bounds 5 2023 = Inr (may_2023, ?s, ?e)" using * by blast
  have sel: "filter (in_bounds ?s ?e) (may_rows @ [june_row]) = may_rows"
    using may_rows_facts(3) by (simp add: june_row_def in_bounds_def stored_simps)
  have rd: "list_all (readable ?db) (select_journal (Some ?s) (Some ?e) (connection ?db))"
    using may_rows_facts(5) [of "may_rows @ [june_row]"]
    by (simp add: select_bounds database_with_simps list_all_iff june_row_def in_bounds_def
        stored_simps)
  let ?entries = "map (dict_of_row ?db) (select_journal (Some ?s) (Some ?e) (connection ?db))"
  have g: "get_journal_entries ?db (Some ?s) (Some ?e) = Inr ?entries"
    using rd by (simp add: get_journal_entries_iff)
  have "filter_mset (in_bounds ?s ?e) (mset (journal_entries (connection ?db)))
          = mset (filter (in_bounds ?s ?e) (may_rows @ [june_row]))"
    by (simp add: database_with_simps)
  then have fm: "filter_mset (in_bounds ?s ?e) (mset (journal_entries (connection ?db)))
          = mset may_rows"
    by (simp only: sel)
  from * g have "mset ?entries
      = image_mset (dict_of_row ?db)
          (filter_mset (in_bounds ?s ?e) (mset (journal_entries (connection ?db))))"
    by blast
  then have "mset ?entries = image_mset (dict_of_row ?db) (mset may_rows)"
    by (simp only: fm)
  then have "image_mset dict_id (mset ?entries)
               = image_mset dict_id (image_mset (dict_of_row ?db) (mset may_rows))"
    by (simp only:)
  also have "\<dots> = image_mset row_id (mset may_rows)"
    by (simp add: multiset.map_comp comp_def)
  also have "\<dots> = {#1, 2, 3, 4, 5#}"
    by (simp add: may_rows_def stored_simps)
  finally have 2: "mset (map dict_id ?entries) = {#1, 2, 3, 4, 5#}"
    by (simp add: multiset.map_comp)
  have 3: "in_bounds ?s ?e (stored 7 (isoformat (last_instant 2023 5)) ''Late'')"
  proof -
    from * have "valid_datetime d \<and> row_date r = isoformat d
        \<longrightarrow> (in_bounds ?s ?e r \<longleftrightarrow> year d = 2023 \<and> month d = 5)" for d r by blast
    from this [of "last_instant 2023 5" "stored 7 (isoformat (last_instant 2023 5)) ''Late''"]
    show ?thesis using may_2023_instants(5) by (simp add: stored_simps last_instant_def)
  qed
  have ex: "\<exists>entries. get_journal_entries ?db (Some ?s) (Some ?e) = Inr entries
               \<and> mset (map dict_id entries) = {#1, 2, 3, 4, 5#}"
    using g 2 by blast
  show ?thesis
    by (intro conjI; (rule 1 | rule ex | rule 3 | rule may_2023_instants(5) | simp))
qed

text \<open>
  The claim as stated fails for December 9999: four days after the 28th lie beyond the
  last date that \<open>datetime\<close> can hold, and the call raises \<open>OverflowError\<close>.
\<close>

theorem december_9999_counterexample:
  "month_bounds 12 9999 = Inl OverflowError
   \<and> condense_journal_entries example_environ 12 9999 (database_with may_rows)
       = Inl OverflowError"
proof -
  have "month_bounds 12 9999 = Inl OverflowError"
    by (simp add: month_bounds_def datetime_of_date_def check_datetime_def
          valid_datetime_def days_in_month_def replace_day_def next_day_def plus_days_4)
  then show ?thesis
    by (simp add: condense_journal_entries_def condense_plan_def)
qed

end
